theory Spec2Isabelle
  imports Main "HOL-Library.Word" "HOL-Library.List_Lexorder"
begin

unbundle bit_operations_syntax

section \<open>Common types\<close>

type_synonym byte = "8 word"

text \<open>A Go \<open>float64\<close> is kept as its IEEE-754 bit pattern, the value of
  \<open>math.Float64bits\<close>; \<open>math.Float64frombits\<close> is the identity on it.\<close>

type_synonym float64 = "64 word"

text \<open>Every way the modelled code can stop without a result: a runtime panic of Go
  (index or slice bounds, nil dereference, failed type assertion), an explicit
  \<open>panic(...)\<close>, or an \<open>error\<close> value returned to the caller.\<close>

datatype error =
    IndexOutOfRange
  | SliceBoundsOutOfRange
  | NilDereference
  | TypeAssertionFailed
  | ExplicitPanic string
  | ReturnedError string

section \<open>bytemap\_params.go\<close>

text \<open>The byte map is an external collaborator (\<open>github.com/getlantern/bytemap\<close>).
  It is taken at its interface: a finite map from field names to typed values, whose
  \<open>Get\<close> yields the stored value as an \<open>interface{}\<close>, and the nil interface when the
  field is absent (or stored as nil).\<close>

datatype iface =
    INil
  | IBool bool
  | IInt int
  | IFloat64 float64
  | IString string

type_synonym ByteMap = "string \<rightharpoonup> iface"

definition ByteMap_Get :: "ByteMap \<Rightarrow> string \<Rightarrow> iface" where
  "ByteMap_Get bm field = (case bm field of None \<Rightarrow> INil | Some v \<Rightarrow> v)"

text \<open>\<open>func (bmp bytemapParams) Get(field string) (float64, bool)\<close>: the type assertion
  \<open>result.(float64)\<close> panics on a value of any other dynamic type.\<close>

definition bytemapParams_Get :: "ByteMap \<Rightarrow> string \<Rightarrow> error + (float64 \<times> bool)" where
  "bytemapParams_Get bmp field =
     (let result = ByteMap_Get bmp field in
      case result of
        INil \<Rightarrow> Inr (0, False)
      | IFloat64 v \<Rightarrow> Inr (v, True)
      | _ \<Rightarrow> Inl TypeAssertionFailed)"

section \<open>bytetree/bytetree.go\<close>

text \<open>An \<open>encoding.Sequence\<close> is a byte slice. The nil slice and the zero-length slice
  are both \<open>[]\<close>: the empty sequence is the zero-length one.\<close>

type_synonym sequence = "byte list"

type_synonym int64 = "64 word"

text \<open>The \<open>data\<close> slice of a node is shared by reference: \<open>Copy\<close> aliases it and
  \<open>node.doUpdate\<close> writes its elements in place. The backing arrays therefore live in an
  explicit store, and a node holds the index of its array (\<open>None\<close> is the nil slice). An
  array is allocated with \<open>make\<close> at its final length, so the slice covers all of it.\<close>

type_synonym store = "sequence list list"

datatype node =
  Node (key: "byte list") (edges: "edge list") (data: "nat option") (removedFor: "int64 list")
and edge =
  Edge (label: "byte list") (target: node)

record Tree =
  root :: node
  bytes :: int
  length_t :: int

definition New :: Tree where
  "New = \<lparr>root = Node [] [] None [], bytes = 0, length_t = 0\<rparr>"

definition Bytes :: "Tree \<Rightarrow> int" where
  "Bytes bt = bytes bt * 2"

definition Length :: "Tree \<Rightarrow> int" where
  "Length bt = length_t bt"

definition wasRemovedFor :: "node \<Rightarrow> int64 \<Rightarrow> bool" where
  "wasRemovedFor n ctx = (if ctx = 0 then False else ctx \<in> set (removedFor n))"

definition doRemoveFor :: "node \<Rightarrow> int64 \<Rightarrow> node" where
  "doRemoveFor n ctx =
     (if ctx = 0 then n
      else Node (key n) (edges n) (data n) (removedFor n @ [ctx]))"

text \<open>The inner loop \<open>for ; i < keyLength && i < labelLength; i++\<close> shared by \<open>Remove\<close>
  and \<open>doUpdate\<close>: the number of leading bytes on which label and key agree.\<close>

fun matchLen :: "byte list \<Rightarrow> byte list \<Rightarrow> nat" where
  "matchLen (l # ls) (k # ks) = (if l \<noteq> k then 0 else Suc (matchLen ls ks))"
| "matchLen _ _ = 0"

subsection \<open>Remove\<close>

text \<open>\<open>remove_node\<close> is one round of \<open>nodeLoop\<close> at node \<open>n\<close> with the rest of the key;
  \<open>remove_edges\<close> is the \<open>range n.edges\<close> loop over the edges not yet looked at. The
  result is the node as mutated and the slice returned (\<open>None\<close> for nil).\<close>

fun remove_node :: "int64 \<Rightarrow> node \<Rightarrow> byte list \<Rightarrow> node \<times> nat option"
and remove_edges :: "int64 \<Rightarrow> edge list \<Rightarrow> byte list \<Rightarrow> edge list \<times> nat option" where
  "remove_node ctx (Node k es d r) ky =
     (let (es', res) = remove_edges ctx es ky in (Node k es' d r, res))"
| "remove_edges ctx [] ky = ([], None)"
| "remove_edges ctx (Edge lbl tgt # es) ky =
     (let labelLength = length lbl;
          keyLength = length ky;
          i = matchLen lbl ky
      in if i = keyLength \<and> keyLength = labelLength then
           (if wasRemovedFor tgt ctx then (Edge lbl tgt # es, None)
            else (Edge lbl (doRemoveFor tgt ctx) # es, data tgt))
         else if i = labelLength \<and> labelLength < keyLength then
           (let (n', res) = remove_node ctx tgt (drop labelLength ky)
            in (Edge lbl n' # es, res))
         else
           (let (es', res) = remove_edges ctx es ky in (Edge lbl tgt # es', res)))"

definition Remove :: "Tree \<Rightarrow> int64 \<Rightarrow> byte list \<Rightarrow> Tree \<times> nat option" where
  "Remove bt ctx fullKey =
     (let (n', res) = remove_node ctx (root bt) fullKey in (bt\<lparr>root := n'\<rparr>, res))"

subsection \<open>Update\<close>

text \<open>\<open>current.Update(vals, metadata, field.Expr, resolution, truncateBefore)\<close> belongs to
  the encoding package; it enters as the function \<open>upd field current\<close>. It returns buffers
  allocated at their exact size, so \<open>cap\<close> is \<open>length\<close>.\<close>

fun update_columns :: "('f \<Rightarrow> sequence \<Rightarrow> sequence) \<Rightarrow> 'f list \<Rightarrow> sequence list \<Rightarrow> sequence list \<times> int" where
  "update_columns upd [] cs = (cs, 0)"
| "update_columns upd (f # fs) [] = ([], 0)"
| "update_columns upd (f # fs) (c # cs) =
     (let updated = upd f c;
          (cs', bytesAdded) = update_columns upd fs cs
      in (updated # cs', int (length updated) - int (length c) + bytesAdded))"

text \<open>\<open>func (n *node) doUpdate\<close>. The parameter \<open>fullKey\<close> of the source is not used by
  its body and has no counterpart here.\<close>

definition node_doUpdate :: "'f list \<Rightarrow> ('f \<Rightarrow> sequence \<Rightarrow> sequence) \<Rightarrow> node \<Rightarrow> store \<Rightarrow> node \<times> store \<times> int" where
  "node_doUpdate flds upd n h =
     (let old = (case data n of None \<Rightarrow> [] | Some a \<Rightarrow> h ! a);
          (d, h1) = (if length old < length flds
                     then (Some (length h), h @ [old @ replicate (length flds - length old) []])
                     else (data n, h))
      in case d of
           None \<Rightarrow> (n, h1, 0)
         | Some a \<Rightarrow>
             (let (cs, bytesAdded) = update_columns upd flds (h1 ! a)
              in (Node (key n) (edges n) d (removedFor n), h1[a := cs], bytesAdded)))"

definition edge_split :: "'f list \<Rightarrow> ('f \<Rightarrow> sequence \<Rightarrow> sequence) \<Rightarrow> edge \<Rightarrow> nat \<Rightarrow> byte list \<Rightarrow> byte list \<Rightarrow> store \<Rightarrow> edge \<times> store \<times> int" where
  "edge_split flds upd e splitOn fullKey ky h =
     (let newNode = Node [] [Edge (drop splitOn (label e)) (target e)] None []
      in if splitOn \<noteq> length ky then
           (let (newLeaf, h', added) = node_doUpdate flds upd (Node fullKey [] None []) h
            in (Edge (take splitOn (label e))
                  (Node (key newNode) (edges newNode @ [Edge (drop splitOn ky) newLeaf])
                     (data newNode) (removedFor newNode)),
                h', int (length ky) - int splitOn + added))
         else
           (let (newLeaf, h', added) = node_doUpdate flds upd newNode h
            in (Edge (take splitOn (label e)) newLeaf, h',
                int (length ky) - int splitOn + added)))"

text \<open>\<open>Tree.doUpdate\<close>: \<open>doUpdate_node\<close> is one round of \<open>nodeLoop\<close>, \<open>doUpdate_edges\<close> the
  loop over the edges, which gives \<open>None\<close> when it falls through to \<open>Create new edge\<close>.\<close>

fun doUpdate_node :: "'f list \<Rightarrow> ('f \<Rightarrow> sequence \<Rightarrow> sequence) \<Rightarrow> byte list \<Rightarrow> node \<Rightarrow> byte list \<Rightarrow> store \<Rightarrow> node \<times> store \<times> int \<times> bool"
and doUpdate_edges :: "'f list \<Rightarrow> ('f \<Rightarrow> sequence \<Rightarrow> sequence) \<Rightarrow> byte list \<Rightarrow> edge list \<Rightarrow> byte list \<Rightarrow> store \<Rightarrow> (edge list \<times> store \<times> int \<times> bool) option" where
  "doUpdate_node flds upd fullKey (Node k es d r) ky h =
     (case doUpdate_edges flds upd fullKey es ky h of
        Some (es', h', added, newNode) \<Rightarrow> (Node k es' d r, h', added, newNode)
      | None \<Rightarrow>
          (let (tgt, h', added) = node_doUpdate flds upd (Node fullKey [] None []) h
           in (Node k (es @ [Edge ky tgt]) d r, h', added + int (length ky), True)))"
| "doUpdate_edges flds upd fullKey [] ky h = None"
| "doUpdate_edges flds upd fullKey (Edge lbl tgt # es) ky h =
     (let labelLength = length lbl;
          keyLength = length ky;
          i = matchLen lbl ky
      in if i = keyLength \<and> keyLength = labelLength then
           (let (tgt', h', added) = node_doUpdate flds upd tgt h
            in Some (Edge lbl tgt' # es, h', added, False))
         else if i = labelLength \<and> labelLength < keyLength then
           (let (tgt', h', added, newNode) =
                  doUpdate_node flds upd fullKey tgt (drop labelLength ky) h
            in Some (Edge lbl tgt' # es, h', added, newNode))
         else if i > 0 then
           (let (e', h', added) = edge_split flds upd (Edge lbl tgt) i fullKey ky h
            in Some (e' # es, h', added, True))
         else
           (case doUpdate_edges flds upd fullKey es ky h of
              None \<Rightarrow> None
            | Some (es', rest) \<Rightarrow> Some (Edge lbl tgt # es', rest)))"

definition Update :: "'f list \<Rightarrow> ('f \<Rightarrow> sequence \<Rightarrow> sequence) \<Rightarrow> byte list \<Rightarrow> Tree \<times> store \<Rightarrow> (Tree \<times> store) \<times> int" where
  "Update flds upd ky bth =
     (let (bt, h) = bth;
          (n', h', bytesAdded, newNode) = doUpdate_node flds upd ky (root bt) ky h
      in ((\<lparr>root = n', bytes = bytes bt + bytesAdded,
            length_t = (if newNode then length_t bt + 1 else length_t bt)\<rparr>, h'),
          bytesAdded))"

subsection \<open>Walk\<close>

text \<open>Nodes are mutated in place while the queue holds pointers to them. Here the queue
  holds each node with its position (the edge indices from the root); the positions of
  the nodes for which \<open>fn\<close> returned false are collected in visiting order, and
  \<open>markRemoved\<close> then performs \<open>doRemoveFor\<close> at each of them. \<open>fn\<close> works on a state of
  its own, which must not be this tree.\<close>

fun nsize :: "node \<Rightarrow> nat" where
  "nsize (Node k es d r) = Suc (sum_list (map (\<lambda>e. case e of Edge lbl tgt \<Rightarrow> nsize tgt) es))"

function walk_queue :: "int64 \<Rightarrow> ('s \<Rightarrow> byte list \<Rightarrow> nat \<Rightarrow> bool \<times> 's) \<Rightarrow> (nat list \<times> node) list \<Rightarrow> 's \<Rightarrow> nat list list \<Rightarrow> nat list list \<times> 's" where
  "walk_queue ctx fn [] s removed = (removed, s)"
| "walk_queue ctx fn ((p, n) # nodes) s removed =
     (let (s', removed') =
            (case data n of
               None \<Rightarrow> (s, removed)
             | Some d \<Rightarrow>
                 if wasRemovedFor n ctx then (s, removed)
                 else (let (keep, s1) = fn s (key n) d
                       in if \<not> keep then (s1, removed @ [p]) else (s1, removed)))
      in walk_queue ctx fn
           (nodes @ map (\<lambda>(i, e). (p @ [i], target e)) (enumerate 0 (edges n))) s' removed')"
  by pat_completeness auto
termination
proof (relation "measure (\<lambda>(ctx, fn, q, s, removed). sum_list (map (\<lambda>(p, n). nsize n) q))")
  show "wf (measure (\<lambda>(ctx, fn, q, s, removed). sum_list (map (\<lambda>(p, n). nsize n) q)))"
    by simp
next
  fix ctx :: int64 and fn :: "'s \<Rightarrow> byte list \<Rightarrow> nat \<Rightarrow> bool \<times> 's"
    and p n nodes s removed x xa y
  have "sum_list (map (\<lambda>(p, n). nsize n) (map (\<lambda>(i, e). (p @ [i], target e)) (enumerate k es)))
        = sum_list (map (\<lambda>e. nsize (target e)) es)" for k es
    by (induction es arbitrary: k) simp_all
  moreover have "(\<lambda>e. case e of Edge lbl tgt \<Rightarrow> nsize tgt) = (\<lambda>e. nsize (target e))"
    by (rule ext) (simp split: edge.split)
  ultimately have "sum_list (map (\<lambda>(p, n). nsize n)
               (map (\<lambda>(i, e). (p @ [i], target e)) (enumerate 0 (edges n)))) < nsize n"
    by (cases n) simp
  then show "((ctx, fn, nodes @ map (\<lambda>(i, e). (p @ [i], target e)) (enumerate 0 (edges n)), xa, y),
              (ctx, fn, (p, n) # nodes, s, removed))
             \<in> measure (\<lambda>(ctx, fn, q, s, removed). sum_list (map (\<lambda>(p, n). nsize n) q))"
    by simp
qed

fun markRemoved :: "int64 \<Rightarrow> nat list \<Rightarrow> node \<Rightarrow> node"
and markRemoved_edges :: "int64 \<Rightarrow> nat \<Rightarrow> nat list \<Rightarrow> edge list \<Rightarrow> edge list" where
  "markRemoved ctx [] (Node k es d r) = doRemoveFor (Node k es d r) ctx"
| "markRemoved ctx (i # p) (Node k es d r) = Node k (markRemoved_edges ctx i p es) d r"
| "markRemoved_edges ctx i p [] = []"
| "markRemoved_edges ctx 0 p (Edge lbl tgt # es) = Edge lbl (markRemoved ctx p tgt) # es"
| "markRemoved_edges ctx (Suc i) p (e # es) = e # markRemoved_edges ctx i p es"

definition Walk :: "Tree \<Rightarrow> int64 \<Rightarrow> ('s \<Rightarrow> byte list \<Rightarrow> nat \<Rightarrow> bool \<times> 's) \<Rightarrow> 's \<Rightarrow> Tree \<times> 's" where
  "Walk bt ctx fn s =
     (let (removed, s') = walk_queue ctx fn [([], root bt)] s []
      in (bt\<lparr>root := fold (markRemoved ctx) removed (root bt)\<rparr>, s'))"

subsection \<open>Copy\<close>

text \<open>The two queues of \<open>Copy\<close> run in step over the tree and its copy; what they build,
  node by node, is a copy of every edge whose target keeps \<open>key\<close> and \<open>data\<close> (the same
  slice, not a copy of it) and starts with no \<open>removedFor\<close>. The root of the copy is a
  fresh empty node.\<close>

fun copy_target :: "node \<Rightarrow> node"
and copy_edges :: "edge list \<Rightarrow> edge list" where
  "copy_target (Node k es d r) = Node k (copy_edges es) d []"
| "copy_edges [] = []"
| "copy_edges (Edge lbl tgt # es) = Edge lbl (copy_target tgt) # copy_edges es"

definition Copy :: "Tree \<Rightarrow> Tree" where
  "Copy bt = \<lparr>root = Node [] (copy_edges (edges (root bt))) None [],
              bytes = bytes bt, length_t = length_t bt\<rparr>"

text \<open>Every \<open>removedFor\<close> entry of a subtree, in depth-first order; used to say that a
  tree carries no mark at all.\<close>

fun marks :: "node \<Rightarrow> int64 list"
and marks_edges :: "edge list \<Rightarrow> int64 list" where
  "marks (Node k es d r) = r @ marks_edges es"
| "marks_edges [] = []"
| "marks_edges (Edge lbl tgt # es) = marks tgt @ marks_edges es"

section \<open>Binary encoding and small library functions\<close>

text \<open>Modelled from the spec: the constants \<open>width16bits\<close>, \<open>width32bits\<close> and
  \<open>width64bits\<close> are declared outside these sources; they are the byte widths of the
  16-, 32- and 64-bit fields of the file layout.\<close>

definition width16bits :: nat where "width16bits = 2"
definition width32bits :: nat where "width32bits = 4"
definition width64bits :: nat where "width64bits = 8"

text \<open>Modelled from the spec: \<open>binaryEncoding\<close> is declared outside these sources; all
  multi-byte integers are little-endian. \<open>le_encode n v\<close> is what \<open>binary.Write\<close> and
  \<open>PutUint\<close> emit for an \<open>n\<close>-byte unsigned integer holding \<open>v\<close> (the conversion to the
  fixed width keeps \<open>v mod 256 ^ n\<close>), \<open>le_decode\<close> what \<open>Uint16\<close>, \<open>Uint32\<close> and \<open>Uint64\<close>
  read.\<close>

fun le_encode :: "nat \<Rightarrow> nat \<Rightarrow> byte list" where
  "le_encode 0 v = []"
| "le_encode (Suc n) v = of_nat (v mod 256) # le_encode n (v div 256)"

fun le_decode :: "byte list \<Rightarrow> nat" where
  "le_decode [] = 0"
| "le_decode (b # bs) = unat b + 256 * le_decode bs"

text \<open>Modelled from the spec: the readers \<open>readInt16\<close>, \<open>readInt64\<close>, \<open>readByteMap\<close> and
  \<open>readSequence\<close> are declared outside these sources. Each takes its field off the front
  of the row, in the layout
  \<open>keyLength:u16 | key | numColumns:u16 | colLen:u64 ... | col ...\<close>, and returns the rest;
  slicing beyond the row panics as Go slicing does. \<open>readInt64\<close> converts to \<open>int\<close>, so a
  length of \<open>2 ^ 63\<close> or more reads as negative.\<close>

definition readInt16 :: "byte list \<Rightarrow> error + (nat \<times> byte list)" where
  "readInt16 b =
     (if length b < width16bits then Inl IndexOutOfRange
      else Inr (le_decode (take width16bits b), drop width16bits b))"

definition readInt64 :: "byte list \<Rightarrow> error + (int \<times> byte list)" where
  "readInt64 b =
     (if length b < width64bits then Inl IndexOutOfRange
      else Inr (sint (word_of_nat (le_decode (take width64bits b)) :: 64 word),
                drop width64bits b))"

definition readByteMap :: "byte list \<Rightarrow> nat \<Rightarrow> error + (byte list \<times> byte list)" where
  "readByteMap b l =
     (if length b < l then Inl SliceBoundsOutOfRange else Inr (take l b, drop l b))"

definition readSequence :: "byte list \<Rightarrow> int \<Rightarrow> error + (sequence \<times> byte list)" where
  "readSequence b l =
     (if l < 0 \<or> int (length b) < l then Inl SliceBoundsOutOfRange
      else Inr (take (nat l) b, drop (nat l) b))"

text \<open>\<open>strings.Split(s, ",")\<close> for a one-character separator, \<open>strings.Join\<close>,
  \<open>filepath.Base\<close> on slash-separated paths and \<open>strconv.Atoi\<close>, whose value is 0 on a
  syntax error and the nearest \<open>int\<close> on a range error.\<close>

fun Split :: "string \<Rightarrow> char \<Rightarrow> string list" where
  "Split [] c = [[]]"
| "Split (x # xs) c =
     (if x = c then [] # Split xs c
      else (case Split xs c of [] \<Rightarrow> [[x]] | p # ps \<Rightarrow> (x # p) # ps))"

fun Join :: "string list \<Rightarrow> char \<Rightarrow> string" where
  "Join [] c = []"
| "Join [s] c = s"
| "Join (s # ss) c = s @ c # Join ss c"

definition Base :: "string \<Rightarrow> string" where
  "Base path =
     (if path = [] then ''.''
      else (let p = dropWhile (\<lambda>c. c = CHR ''/'') (rev path)
            in if p = [] then ''/'' else rev (takeWhile (\<lambda>c. c \<noteq> CHR ''/'') p)))"

fun parse_digits :: "nat \<Rightarrow> string \<Rightarrow> nat option" where
  "parse_digits acc [] = Some acc"
| "parse_digits acc (c # cs) =
     (let d = (of_char c :: nat)
      in if 48 \<le> d \<and> d \<le> 57 then parse_digits (10 * acc + (d - 48)) cs else None)"

definition Atoi :: "string \<Rightarrow> int" where
  "Atoi s =
     (let (neg, ds) = (case s of
                         c # cs \<Rightarrow> if c = CHR ''-'' then (True, cs)
                                   else if c = CHR ''+'' then (False, cs) else (False, s)
                       | [] \<Rightarrow> (False, s))
      in if ds = [] then 0
         else (case parse_digits 0 ds of
                 None \<Rightarrow> 0
               | Some v \<Rightarrow> if neg then max (- (2 ^ 63)) (- int v) else min (2 ^ 63 - 1) (int v)))"

definition string_of_bytes :: "byte list \<Rightarrow> string" where
  "string_of_bytes bs = map (\<lambda>b. char_of (unat b)) bs"

definition bytes_of_string :: "string \<Rightarrow> byte list" where
  "bytes_of_string s = map (\<lambda>c. of_nat (of_char c)) s"


section \<open>The file store\<close>

text \<open>A \<open>sql.Field\<close> as the row store uses it: its \<open>Name\<close>, its \<open>String()\<close> and the
  \<open>EncodedWidth()\<close> of its expression. The sql and expr packages that compute the latter
  two are outside these sources, so both are attributes of the field here.\<close>

record field =
  Name :: string
  String_of :: string
  EncodedWidth :: nat

record table =
  Fields :: "field list"
  IncludeMemStoreInQuery :: bool

record fileStore =
  tbl :: table
  filename :: string

text \<open>What \<open>os.OpenFile\<close> finds under a name: no such file, another error (with its
  text), or the file. The snappy stream is transparent (the reader returns what was given
  to the writer), so a file holds the uncompressed bytes.\<close>

datatype os_file = NotExist | OpenError string | Contents "byte list"

type_synonym filesystem = "string \<Rightarrow> os_file"

text \<open>The memory the iteration works on: the trees by address, and the backing arrays of
  their data slices. A \<open>*tree\<close> is an address or nil. The tree of the row store is the
  byte tree of \<open>bytetree.go\<close>.\<close>

type_synonym mem = "Tree list \<times> store"

text \<open>A result is the state reached (the memory and the state of the row callback), or
  an error or panic together with the state in which the failing step began.\<close>

type_synonym ('o) outcome = "(error \<times> mem \<times> 'o) + (mem \<times> 'o)"

subsection \<open>iterate: file version and header\<close>

definition fileVersion_of :: "string \<Rightarrow> int" where
  "fileVersion_of fname =
     (let parts = Split (Base fname) (CHR ''_'')
      in if length parts = 3 then Atoi (hd (Split (parts ! 2) (CHR ''.''))) else 0)"

definition FileVersion_2 :: int where "FileVersion_2 = 2"
definition CurrentFileVersion :: int where "CurrentFileVersion = FileVersion_2"

fun findField :: "field list \<Rightarrow> string \<Rightarrow> field option" where
  "findField [] fieldString = None"
| "findField (f # fs) fieldString =
     (if fieldString = String_of f then Some f else findField fs fieldString)"

fun reconcileFields :: "field list \<Rightarrow> string list \<Rightarrow> error + field list" where
  "reconcileFields tfields [] = Inr []"
| "reconcileFields tfields (fieldString # rest) =
     (case findField tfields fieldString of
        None \<Rightarrow> Inl (ExplicitPanic (''Unable to find field for '' @ fieldString))
      | Some f \<Rightarrow>
          (case reconcileFields tfields rest of
             Inl e \<Rightarrow> Inl e
           | Inr fileFields \<Rightarrow> Inr (f # fileFields)))"

text \<open>What a read that finds fewer bytes than it needs reports: \<open>io.EOF\<close> when it finds
  none, \<open>io.ErrUnexpectedEOF\<close> otherwise.\<close>

definition short_read :: "byte list \<Rightarrow> string" where
  "short_read r = (if r = [] then ''EOF'' else ''unexpected EOF'')"

text \<open>The header of a version 2 file: \<open>binary.Read\<close> of the 32-bit length, \<open>io.ReadFull\<close>
  of the header bytes, and the match of every field string against the table. The result
  is \<open>fileFields\<close> and the rest of the stream.\<close>

definition readHeader :: "field list \<Rightarrow> byte list \<Rightarrow> error + (field list \<times> byte list)" where
  "readHeader tfields r =
     (if length r < width32bits
      then Inl (ReturnedError (''Unexpected error reading header length: '' @ short_read r))
      else (let headerLength = le_decode (take width32bits r);
                r1 = drop width32bits r
            in if length r1 < headerLength then Inl (ReturnedError (short_read r1))
               else (case reconcileFields tfields
                            (Split (string_of_bytes (take headerLength r1)) (CHR '','')) of
                       Inl e \<Rightarrow> Inl e
                     | Inr fileFields \<Rightarrow> Inr (fileFields, drop headerLength r1))))"

subsection \<open>iterate: buildShouldInclude\<close>

definition includedFields :: "string list \<Rightarrow> field list \<Rightarrow> nat list" where
  "includedFields flds candidates =
     filter (\<lambda>i. Name (candidates ! i) \<in> set flds) [0..<length candidates]"

fun shouldInclude :: "nat list \<Rightarrow> nat \<Rightarrow> bool" where
  "shouldInclude [] i = False"
| "shouldInclude (x # xs) i =
     (if x = i then True else if x > i then False else shouldInclude xs i)"

definition buildShouldInclude :: "string list \<Rightarrow> field list \<Rightarrow> error + (nat \<Rightarrow> bool)" where
  "buildShouldInclude flds candidates =
     (if length flds = 0 then Inr (\<lambda>i. True)
      else if length (includedFields flds candidates) = 0
           then Inl (ReturnedError ''Non of specified fields exists on table!'')
      else Inr (shouldInclude (includedFields flds candidates)))"

subsection \<open>iterate: reading one row\<close>

fun readColLengths :: "nat \<Rightarrow> byte list \<Rightarrow> error + (int list \<times> byte list)" where
  "readColLengths 0 row = Inr ([], row)"
| "readColLengths (Suc n) row =
     (case readInt64 row of
        Inl e \<Rightarrow> Inl e
      | Inr (colLength, row1) \<Rightarrow>
          (case readColLengths n row1 of
             Inl e \<Rightarrow> Inl e
           | Inr (colLengths, row2) \<Rightarrow> Inr (colLength # colLengths, row2)))"

text \<open>The loop \<open>for i, colLength := range colLengths\<close>: column \<open>i\<close> is read in any case and
  kept only if the file field \<open>i\<close> is included; a column that is not kept stays nil. The
  flag is \<open>includesAtLeastOneColumn\<close>. Trace logging is off.\<close>

fun readColumns :: "(nat \<Rightarrow> bool) \<Rightarrow> nat \<Rightarrow> int list \<Rightarrow> byte list \<Rightarrow> error + (sequence list \<times> bool)" where
  "readColumns shouldIncludeFileField i [] row = Inr ([], False)"
| "readColumns shouldIncludeFileField i (colLength # colLengths) row =
     (case readSequence row colLength of
        Inl e \<Rightarrow> Inl e
      | Inr (seq, row1) \<Rightarrow>
          (case readColumns shouldIncludeFileField (Suc i) colLengths row1 of
             Inl e \<Rightarrow> Inl e
           | Inr (columns, includes) \<Rightarrow>
               if shouldIncludeFileField i then Inr (seq # columns, seq \<noteq> [] \<or> includes)
               else Inr ([] # columns, includes)))"

definition parseRow :: "(nat \<Rightarrow> bool) \<Rightarrow> byte list \<Rightarrow> error + (byte list \<times> sequence list \<times> bool)" where
  "parseRow shouldIncludeFileField row =
     (case readInt16 row of
        Inl e \<Rightarrow> Inl e
      | Inr (keyLength, row1) \<Rightarrow>
     (case readByteMap row1 keyLength of
        Inl e \<Rightarrow> Inl e
      | Inr (ky, row2) \<Rightarrow>
     (case readInt16 row2 of
        Inl e \<Rightarrow> Inl e
      | Inr (numColumns, row3) \<Rightarrow>
     (case readColLengths numColumns row3 of
        Inl e \<Rightarrow> Inl e
      | Inr (colLengths, row4) \<Rightarrow>
     (case readColumns shouldIncludeFileField 0 colLengths row4 of
        Inl e \<Rightarrow> Inl e
      | Inr (columns, includes) \<Rightarrow> Inr (ky, columns, includes))))))"

subsection \<open>iterate: merging a file row with the memstores\<close>

text \<open>\<open>seq.merge(other, field.Expr, resolution, truncateBefore)\<close> belongs to the sequence
  codec, outside these sources; it enters as \<open>mergeSeq field seq other\<close>. A slice taken
  from a tree is read through the store.\<close>

definition slice_of :: "store \<Rightarrow> nat option \<Rightarrow> sequence list" where
  "slice_of arrays d = (case d of None \<Rightarrow> [] | Some a \<Rightarrow> arrays ! a)"

text \<open>The loop \<open>for i := 0; i < len(columns) || i < len(columns2); i++\<close> of the file pass.
  Where the memstore has a column beyond the row's, the source assigns \<open>columns[i]\<close>
  past the end of \<open>columns\<close>.\<close>

function mergeFileColumns ::
  "(field \<Rightarrow> sequence \<Rightarrow> sequence \<Rightarrow> sequence) \<Rightarrow> field list \<Rightarrow> (nat \<Rightarrow> bool) \<Rightarrow>
   nat \<Rightarrow> sequence list \<Rightarrow> sequence list \<Rightarrow> error + sequence list" where
  "mergeFileColumns mergeSeq memStoreFields shouldIncludeMemStoreField i columns columns2 =
     (if i < length columns \<or> i < length columns2 then
        (if shouldIncludeMemStoreField i then
           (if i \<ge> length columns2 then
              mergeFileColumns mergeSeq memStoreFields shouldIncludeMemStoreField (Suc i) columns columns2
            else if i \<ge> length columns then Inl IndexOutOfRange
            else if i \<ge> length memStoreFields then Inl IndexOutOfRange
            else mergeFileColumns mergeSeq memStoreFields shouldIncludeMemStoreField (Suc i)
                   (columns[i := mergeSeq (memStoreFields ! i) (columns ! i) (columns2 ! i)]) columns2)
         else mergeFileColumns mergeSeq memStoreFields shouldIncludeMemStoreField (Suc i) columns columns2)
      else Inr columns)"
  by pat_completeness auto
termination
  by (relation "measure (\<lambda>(mergeSeq, memStoreFields, inc, i, columns, columns2).
                   max (length columns) (length columns2) - i)") auto

declare mergeFileColumns.simps [simp del]

text \<open>The loop \<open>for _, ms := range memStores\<close> of the file pass: \<open>ms.remove(ctx, key)\<close>
  marks the node in the tree and yields its slice.\<close>

fun mergeFileRow ::
  "(field \<Rightarrow> sequence \<Rightarrow> sequence \<Rightarrow> sequence) \<Rightarrow> field list \<Rightarrow> (nat \<Rightarrow> bool) \<Rightarrow> int64 \<Rightarrow>
   byte list \<Rightarrow> nat option list \<Rightarrow> sequence list \<Rightarrow> mem \<Rightarrow> error + (sequence list \<times> mem)" where
  "mergeFileRow mergeSeq memStoreFields inc ctx ky [] columns m = Inr (columns, m)"
| "mergeFileRow mergeSeq memStoreFields inc ctx ky (ms # memStores) columns m =
     (case ms of
        None \<Rightarrow> Inl NilDereference
      | Some p \<Rightarrow>
          (let (trees, arrays) = m;
               (bt', columns2) = Remove (trees ! p) ctx ky
           in case mergeFileColumns mergeSeq memStoreFields inc 0 columns (slice_of arrays columns2) of
                Inl e \<Rightarrow> Inl e
              | Inr columns' \<Rightarrow>
                  mergeFileRow mergeSeq memStoreFields inc ctx ky memStores columns'
                    (trees[p := bt'], arrays)))"

text \<open>The row loop \<open>for { ... }\<close>: \<open>binary.Read\<close> of the row length (end of file ends the
  loop, a partial length is an error), \<open>make\<close> of the row, \<open>PutUint64\<close> of the length into
  it (out of range when the row is shorter than the length field), \<open>io.ReadFull\<close> of the
  rest, parsing, merging and the call of \<open>onRow\<close>. \<open>onRow\<close> may write to the elements of
  the slice it is given and may panic; it returns the columns as it leaves them. Memory is
  not bounded here: \<open>make\<close> fails only for a length that is no \<open>int\<close>, where the runtime
  also refuses lengths beyond its allocation limit.\<close>

function readRows ::
  "(field \<Rightarrow> sequence \<Rightarrow> sequence \<Rightarrow> sequence) \<Rightarrow> field list \<Rightarrow> (nat \<Rightarrow> bool) \<Rightarrow> (nat \<Rightarrow> bool) \<Rightarrow>
   int64 \<Rightarrow> ('o \<Rightarrow> byte list \<Rightarrow> sequence list \<Rightarrow> error + (sequence list \<times> 'o)) \<Rightarrow> nat option list \<Rightarrow>
   byte list \<Rightarrow> mem \<times> 'o \<Rightarrow> 'o outcome" where
  "readRows mergeSeq memStoreFields incMem incFile ctx onRow memStores r st =
     (let (m, out) = st in
      if r = [] then Inr st
      else if length r < width64bits
           then Inl (ReturnedError (''Unexpected error reading row length: '' @ short_read r), st)
      else (let rowLength = le_decode (take width64bits r);
                r1 = drop width64bits r
            in if rowLength \<ge> 2 ^ 63 then Inl (ExplicitPanic ''makeslice: len out of range'', st)
               else if rowLength < width64bits then Inl (IndexOutOfRange, st)
               else if length r1 < rowLength - width64bits
                    then Inl (ReturnedError (''Unexpected error while reading row: '' @ short_read r1), st)
               else (case parseRow incFile (take (rowLength - width64bits) r1) of
                       Inl e \<Rightarrow> Inl (e, st)
                     | Inr (ky, columns, includes) \<Rightarrow>
                   (case mergeFileRow mergeSeq memStoreFields incMem ctx ky memStores columns m of
                       Inl e \<Rightarrow> Inl (e, st)
                     | Inr (columns', m') \<Rightarrow>
                         if includes then
                           (case onRow out ky columns' of
                              Inl e \<Rightarrow> Inl (e, m', out)
                            | Inr (columns'', out') \<Rightarrow>
                                readRows mergeSeq memStoreFields incMem incFile ctx onRow memStores
                                  (drop (rowLength - width64bits) r1) (m', out'))
                         else readRows mergeSeq memStoreFields incMem incFile ctx onRow memStores
                                (drop (rowLength - width64bits) r1) (m', out)))))"
  by pat_completeness auto
termination
  by (relation "measure (\<lambda>(mergeSeq, memStoreFields, incMem, incFile, ctx, onRow, memStores, r, st).
                   length r)") (auto simp: width64bits_def)

declare readRows.simps [simp del]


subsection \<open>iterate: the rows left in the memstores\<close>

text \<open>In the walk, \<open>columns\<close> starts as the data slice of the visited node, so a merge
  written to \<open>columns[i]\<close> lands in the array the node shares. The first \<open>append\<close> moves
  \<open>columns\<close> to an array of its own, since the data arrays have no spare capacity.\<close>

datatype cols = Shared nat | Local "sequence list"

definition cols_contents :: "store \<Rightarrow> cols \<Rightarrow> sequence list" where
  "cols_contents arrays columns = (case columns of Shared a \<Rightarrow> arrays ! a | Local cs \<Rightarrow> cs)"

definition cols_store :: "store \<Rightarrow> cols \<Rightarrow> sequence list \<Rightarrow> cols \<times> store" where
  "cols_store arrays columns cs =
     (case columns of Shared a \<Rightarrow> (Shared a, arrays[a := cs]) | Local l \<Rightarrow> (Local cs, arrays))"

lemma length_nth_list_update_same:
  "length cs = length (xs ! a) \<Longrightarrow> length (xs[a := cs] ! b) = length (xs ! b)"
  by (cases "a < length xs") (auto simp: nth_list_update list_update_beyond)

lemma length_cols_store:
  "length cs = length (cols_contents arrays columns) \<Longrightarrow>
   length (cols_contents (snd (cols_store arrays columns cs)) (fst (cols_store arrays columns cs)))
     = length (cols_contents arrays columns) \<and>
   length (slice_of (snd (cols_store arrays columns cs)) d) = length (slice_of arrays d)"
  by (cases columns; cases d)
     (simp_all add: cols_store_def cols_contents_def slice_of_def length_nth_list_update_same)

text \<open>The loop over \<open>i\<close> inside the walk. \<open>shouldIncludeMemStoreField\<close> is nil when the
  file did not exist, and calling it panics.\<close>

function mergeMemColumns ::
  "(field \<Rightarrow> sequence \<Rightarrow> sequence \<Rightarrow> sequence) \<Rightarrow> field list \<Rightarrow> (nat \<Rightarrow> bool) option \<Rightarrow>
   nat \<Rightarrow> cols \<Rightarrow> nat option \<Rightarrow> store \<Rightarrow> error + (cols \<times> store)" where
  "mergeMemColumns mergeSeq memStoreFields inc i columns columns2 arrays =
     (if i < length (cols_contents arrays columns) \<or> i < length (slice_of arrays columns2) then
        (case inc of
           None \<Rightarrow> Inl NilDereference
         | Some shouldIncludeMemStoreField \<Rightarrow>
             if shouldIncludeMemStoreField i then
               (if i \<ge> length (slice_of arrays columns2) then
                  mergeMemColumns mergeSeq memStoreFields inc (Suc i) columns columns2 arrays
                else if i \<ge> length (cols_contents arrays columns) then
                  mergeMemColumns mergeSeq memStoreFields inc (Suc i)
                    (Local (cols_contents arrays columns @ [slice_of arrays columns2 ! i]))
                    columns2 arrays
                else if i \<ge> length memStoreFields then Inl IndexOutOfRange
                else
                  mergeMemColumns mergeSeq memStoreFields inc (Suc i)
                    (fst (cols_store arrays columns
                       ((cols_contents arrays columns)
                          [i := mergeSeq (memStoreFields ! i) (cols_contents arrays columns ! i)
                                  (slice_of arrays columns2 ! i)])))
                    columns2
                    (snd (cols_store arrays columns
                       ((cols_contents arrays columns)
                          [i := mergeSeq (memStoreFields ! i) (cols_contents arrays columns ! i)
                                  (slice_of arrays columns2 ! i)]))))
             else mergeMemColumns mergeSeq memStoreFields inc (Suc i) columns columns2 arrays)
      else Inr (columns, arrays))"
  by pat_completeness auto
termination
proof (relation "measure (\<lambda>(mergeSeq, memStoreFields, inc, i, columns, columns2, arrays).
                   max (length (cols_contents arrays columns)) (length (slice_of arrays columns2)) - i)",
       goal_cases)
  case 1
  show ?case by simp
next
  case (2 mergeSeq memStoreFields inc i columns columns2 arrays f)
  then show ?case by auto
next
  case (3 mergeSeq memStoreFields inc i columns columns2 arrays f)
  then show ?case by (auto simp: cols_contents_def)
next
  case (4 mergeSeq memStoreFields inc i columns columns2 arrays f)
  let ?cs = "(cols_contents arrays columns)
               [i := mergeSeq (memStoreFields ! i) (cols_contents arrays columns ! i)
                       (slice_of arrays columns2 ! i)]"
  have "length ?cs = length (cols_contents arrays columns)" by simp
  from length_cols_store[OF this, of columns2] 4 show ?case by auto
next
  case (5 mergeSeq memStoreFields inc i columns columns2 arrays f)
  then show ?case by auto
qed

declare mergeMemColumns.simps [simp del]

text \<open>The loop \<open>for j := s + 1; j < len(memStores); j++\<close> inside the walk, over the
  memstores after the one being walked.\<close>

fun mergeLaterMemStores ::
  "(field \<Rightarrow> sequence \<Rightarrow> sequence \<Rightarrow> sequence) \<Rightarrow> field list \<Rightarrow> (nat \<Rightarrow> bool) option \<Rightarrow> int64 \<Rightarrow>
   byte list \<Rightarrow> nat option list \<Rightarrow> cols \<Rightarrow> mem \<Rightarrow> error + (cols \<times> mem)" where
  "mergeLaterMemStores mergeSeq memStoreFields inc ctx ky [] columns m = Inr (columns, m)"
| "mergeLaterMemStores mergeSeq memStoreFields inc ctx ky (ms2 # later) columns m =
     (case ms2 of
        None \<Rightarrow> Inl NilDereference
      | Some p \<Rightarrow>
          (let (trees, arrays) = m;
               (bt', columns2) = Remove (trees ! p) ctx ky
           in case mergeMemColumns mergeSeq memStoreFields inc 0 columns columns2 arrays of
                Inl e \<Rightarrow> Inl e
              | Inr (columns', arrays') \<Rightarrow>
                  mergeLaterMemStores mergeSeq memStoreFields inc ctx ky later columns'
                    (trees[p := bt'], arrays')))"

text \<open>The function literal given to \<open>ms.walk\<close> for the memstore at index \<open>s\<close>. Its state
  is the outcome so far: after a panic nothing more happens. It always returns false.\<close>

definition walkCallback ::
  "(field \<Rightarrow> sequence \<Rightarrow> sequence \<Rightarrow> sequence) \<Rightarrow> field list \<Rightarrow> (nat \<Rightarrow> bool) option \<Rightarrow> int64 \<Rightarrow>
   ('o \<Rightarrow> byte list \<Rightarrow> sequence list \<Rightarrow> error + (sequence list \<times> 'o)) \<Rightarrow> nat option list \<Rightarrow> nat \<Rightarrow>
   'o outcome \<Rightarrow> byte list \<Rightarrow> nat \<Rightarrow> bool \<times> 'o outcome" where
  "walkCallback mergeSeq memStoreFields inc ctx onRow memStores s st ky d =
     (case st of
        Inl e \<Rightarrow> (False, Inl e)
      | Inr (m, out) \<Rightarrow>
          (case mergeLaterMemStores mergeSeq memStoreFields inc ctx ky (drop (Suc s) memStores)
                  (Shared d) m of
             Inl e \<Rightarrow> (False, Inl (e, m, out))
           | Inr (columns, (trees, arrays)) \<Rightarrow>
               (case onRow out ky (cols_contents arrays columns) of
                  Inl e \<Rightarrow> (False, Inl (e, (trees, arrays), out))
                | Inr (columns', out') \<Rightarrow>
                    (False, Inr ((trees, snd (cols_store arrays columns columns')), out')))))"

text \<open>The loop \<open>for s, ms := range memStores\<close>. The walked tree is written back with its
  marks once its walk is over; \<open>memStores\<close> holds different trees, so the callback, which
  removes from the later ones, does not touch it.\<close>

fun walkMemStores ::
  "(field \<Rightarrow> sequence \<Rightarrow> sequence \<Rightarrow> sequence) \<Rightarrow> field list \<Rightarrow> (nat \<Rightarrow> bool) option \<Rightarrow> int64 \<Rightarrow>
   ('o \<Rightarrow> byte list \<Rightarrow> sequence list \<Rightarrow> error + (sequence list \<times> 'o)) \<Rightarrow> nat option list \<Rightarrow> nat list \<Rightarrow>
   mem \<times> 'o \<Rightarrow> 'o outcome" where
  "walkMemStores mergeSeq memStoreFields inc ctx onRow memStores [] st = Inr st"
| "walkMemStores mergeSeq memStoreFields inc ctx onRow memStores (s # rest) st =
     (case memStores ! s of
        None \<Rightarrow> Inl (NilDereference, st)
      | Some p \<Rightarrow>
          (case Walk (fst (fst st) ! p) ctx
                  (walkCallback mergeSeq memStoreFields inc ctx onRow memStores s) (Inr st) of
             (bt', Inl e) \<Rightarrow> Inl e
           | (bt', Inr ((trees, arrays), out)) \<Rightarrow>
               walkMemStores mergeSeq memStoreFields inc ctx onRow memStores rest
                 ((trees[p := bt'], arrays), out)))"

subsection \<open>iterate\<close>

text \<open>\<open>func (fs *fileStore) iterate(onRow, memStores, fields...)\<close>. \<open>ctx\<close> is the value of
  \<open>time.Now().UnixNano()\<close>, \<open>fsys\<close> the files on disk.\<close>

definition fileStore_iterate ::
  "filesystem \<Rightarrow> (field \<Rightarrow> sequence \<Rightarrow> sequence \<Rightarrow> sequence) \<Rightarrow> int64 \<Rightarrow> fileStore \<Rightarrow>
   ('o \<Rightarrow> byte list \<Rightarrow> sequence list \<Rightarrow> error + (sequence list \<times> 'o)) \<Rightarrow> nat option list \<Rightarrow>
   string list \<Rightarrow> mem \<times> 'o \<Rightarrow> 'o outcome" where
  "fileStore_iterate fsys mergeSeq ctx fs onRow memStores flds st =
     (let memStoreFields = Fields (tbl fs);
          everyMemStore = [0..<length memStores]
      in case fsys (filename fs) of
           NotExist \<Rightarrow>
             walkMemStores mergeSeq memStoreFields None ctx onRow memStores everyMemStore st
         | OpenError cause \<Rightarrow>
             Inl (ReturnedError (''Unable to open file '' @ filename fs @ '': '' @ cause), st)
         | Contents bs \<Rightarrow>
             (case (if fileVersion_of (filename fs) \<ge> FileVersion_2
                    then readHeader (Fields (tbl fs)) bs
                    else Inr (Fields (tbl fs), bs)) of
                Inl e \<Rightarrow> Inl (e, st)
              | Inr (fileFields, r) \<Rightarrow>
            (case buildShouldInclude flds memStoreFields of
                Inl e \<Rightarrow> Inl (e, st)
              | Inr shouldIncludeMemStoreField \<Rightarrow>
            (case buildShouldInclude flds fileFields of
                Inl e \<Rightarrow> Inl (e, st)
              | Inr shouldIncludeFileField \<Rightarrow>
            (case readRows mergeSeq memStoreFields shouldIncludeMemStoreField
                    shouldIncludeFileField ctx onRow memStores r st of
                Inl e \<Rightarrow> Inl e
              | Inr st' \<Rightarrow>
                  walkMemStores mergeSeq memStoreFields (Some shouldIncludeMemStoreField) ctx
                    onRow memStores everyMemStore st')))))"


section \<open>The row store\<close>

subsection \<open>processFlushes: the write closure and the new file\<close>

text \<open>\<open>seq.truncate(width, resolution, truncateBefore)\<close> belongs to the sequence codec,
  outside these sources; it enters as \<open>truncateSeq width seq\<close> and returns nil, that is \<open>[]\<close>,
  for a sequence that has expired. The first loop of \<open>write\<close> truncates every column in
  place and computes \<open>hasActiveSequence\<close>; \<open>rs.t.Fields[i]\<close> panics for a column beyond the
  table's fields.\<close>

fun truncateColumns :: "(nat \<Rightarrow> sequence \<Rightarrow> sequence) \<Rightarrow> field list \<Rightarrow> nat \<Rightarrow> sequence list \<Rightarrow> error + (sequence list \<times> bool)" where
  "truncateColumns truncateSeq tfields i [] = Inr ([], False)"
| "truncateColumns truncateSeq tfields i (seq # columns) =
     (if i \<ge> length tfields then Inl IndexOutOfRange
      else (let seq' = truncateSeq (EncodedWidth (tfields ! i)) seq
            in case truncateColumns truncateSeq tfields (Suc i) columns of
                 Inl e \<Rightarrow> Inl e
               | Inr (columns', hasActiveSequence) \<Rightarrow>
                   Inr (seq' # columns', seq' \<noteq> [] \<or> hasActiveSequence)))"

text \<open>The bytes of one row,
  \<open>rowLength|keylength|key|numcolumns|col1len|...|lastcollen|col1|...|lastcol\<close>.\<close>

definition encodeRow :: "byte list \<Rightarrow> sequence list \<Rightarrow> byte list" where
  "encodeRow ky columns =
     (let rowLength = width64bits + width16bits + length ky + width16bits
                      + sum_list (map (\<lambda>seq. width64bits + length seq) columns)
      in le_encode width64bits rowLength @ le_encode width16bits (length ky) @ ky
         @ le_encode width16bits (length columns)
         @ concat (map (\<lambda>seq. le_encode width64bits (length seq)) columns)
         @ concat columns)"

text \<open>The closure \<open>write\<close> of \<open>processFlushes\<close>, here \<open>writeRow\<close>. Its state is what \<open>cout\<close> has been given so far, row by row (with
  sorting on, each row reaches the sorter as one \<open>Write\<close>). Writes to the file succeed.\<close>

definition writeRow :: "(nat \<Rightarrow> sequence \<Rightarrow> sequence) \<Rightarrow> field list \<Rightarrow> byte list list \<Rightarrow> byte list \<Rightarrow> sequence list \<Rightarrow> error + (sequence list \<times> byte list list)" where
  "writeRow truncateSeq tfields cout ky columns =
     (case truncateColumns truncateSeq tfields 0 columns of
        Inl e \<Rightarrow> Inl e
      | Inr (columns', hasActiveSequence) \<Rightarrow>
          if \<not> hasActiveSequence then Inr (columns', cout)
          else Inr (columns', cout @ [encodeRow ky columns']))"

definition headerBytes :: "field list \<Rightarrow> byte list" where
  "headerBytes tfields = bytes_of_string (Join (map String_of tfields) (CHR '',''))"

text \<open>Modelled from the spec: the external merge sort \<open>emsort\<close> is outside these sources; on
  \<open>Close\<close> it writes the rows it was given in ascending order of \<open>bytes.Compare\<close> on the full
  row. The stream of the finished file is the header followed by the rows.\<close>

definition closeFile :: "field list \<Rightarrow> bool \<Rightarrow> byte list list \<Rightarrow> byte list" where
  "closeFile tfields sorting cout =
     le_encode width32bits (length (headerBytes tfields)) @ headerBytes tfields
     @ concat (if sorting then sort cout else cout)"

subsection \<open>The rows of a flush\<close>

text \<open>The flusher calls \<open>write\<close> once per row; \<open>writeRows\<close> is that sequence of calls on
  the rows \<open>(key, columns)\<close> in the order they are emitted.\<close>

fun writeRows :: "(nat \<Rightarrow> sequence \<Rightarrow> sequence) \<Rightarrow> field list \<Rightarrow> byte list list \<Rightarrow> (byte list \<times> sequence list) list \<Rightarrow> error + byte list list" where
  "writeRows truncateSeq tfields cout [] = Inr cout"
| "writeRows truncateSeq tfields cout ((ky, columns) # rows) =
     (case writeRow truncateSeq tfields cout ky columns of
        Inl e \<Rightarrow> Inl e
      | Inr (columns', cout') \<Rightarrow> writeRows truncateSeq tfields cout' rows)"

text \<open>For stating what comes back: a row after truncation (column \<open>i\<close> by the width of
  field \<open>i\<close>), and the rows that keep at least one column that is not nil.\<close>

definition truncateRow :: "(nat \<Rightarrow> sequence \<Rightarrow> sequence) \<Rightarrow> field list \<Rightarrow> byte list \<times> sequence list \<Rightarrow> byte list \<times> sequence list" where
  "truncateRow truncateSeq tfields row =
     (fst row, map (\<lambda>(f, seq). truncateSeq (EncodedWidth f) seq) (zip tfields (snd row)))"

definition retained :: "(nat \<Rightarrow> sequence \<Rightarrow> sequence) \<Rightarrow> field list \<Rightarrow> (byte list \<times> sequence list) list \<Rightarrow> (byte list \<times> sequence list) list" where
  "retained truncateSeq tfields rows =
     filter (\<lambda>row. \<exists>seq \<in> set (snd row). seq \<noteq> []) (map (truncateRow truncateSeq tfields) rows)"

text \<open>The row callback that records what it is given.\<close>

definition collectRows :: "(byte list \<times> sequence list) list \<Rightarrow> byte list \<Rightarrow> sequence list \<Rightarrow> error + (sequence list \<times> (byte list \<times> sequence list) list)" where
  "collectRows out ky columns = Inr (columns, out @ [(ky, columns)])"

subsection \<open>The row store and its two tasks\<close>

record flushRequest =
  idx :: int
  memstore :: nat
  sorting :: bool

text \<open>\<open>memStores\<close> is the Go map from flush generation to tree; a generation that is not in
  the map reads as nil.\<close>

record rowStore =
  rs_tbl :: table
  memStores :: "int \<Rightarrow> nat option"
  fileStore :: fileStore

text \<open>The local variables of \<open>processInserts\<close>.\<close>

record inserter =
  memStoreIdx :: int
  currentMemStore :: nat
  flushIdx :: int

text \<open>The start of \<open>processInserts\<close> on the row store that \<open>openRowStore\<close> builds.\<close>

definition startInserts :: "table \<Rightarrow> string \<Rightarrow> inserter \<times> rowStore \<times> Tree list" where
  "startInserts tb existingFileName =
     (\<lparr>memStoreIdx = 0, currentMemStore = 0, flushIdx = 0\<rparr>,
      \<lparr>rs_tbl = tb, memStores = [0 \<mapsto> 0], fileStore = \<lparr>tbl = tb, filename = existingFileName\<rparr>\<rparr>,
      [New])"

text \<open>The closure \<open>flush\<close> of \<open>processInserts\<close>: the current memstore is handed to the
  flusher under its generation and a new one takes the next generation.\<close>

definition flush :: "inserter \<times> rowStore \<times> Tree list \<Rightarrow> (inserter \<times> rowStore \<times> Tree list) \<times> flushRequest option" where
  "flush st =
     (let (ins, rs, trees) = st
      in if Length (trees ! currentMemStore ins) = 0 then (st, None)
         else (let shouldSort = (flushIdx ins mod 10 = 0);
                   fr = \<lparr>idx = memStoreIdx ins, memstore = currentMemStore ins, sorting = shouldSort\<rparr>
               in ((\<lparr>memStoreIdx = memStoreIdx ins + 1, currentMemStore = length trees,
                      flushIdx = flushIdx ins + 1\<rparr>,
                    rs\<lparr>memStores := (memStores rs)(memStoreIdx ins + 1 \<mapsto> length trees)\<rparr>,
                    trees @ [New]),
                   Some fr)))"

text \<open>The \<open>insert\<close> case of \<open>processInserts\<close>; \<open>upd\<close> stands for the update of a sequence with
  the values of the insert, as in the byte tree.\<close>

definition processInsert :: "('f list) \<Rightarrow> ('f \<Rightarrow> sequence \<Rightarrow> sequence) \<Rightarrow> int \<Rightarrow> byte list \<Rightarrow> (inserter \<times> rowStore \<times> Tree list) \<times> store \<Rightarrow> ((inserter \<times> rowStore \<times> Tree list) \<times> store) \<times> flushRequest option" where
  "processInsert flds upd maxMemStoreBytes ky sth =
     (let ((ins, rs, trees), arrays) = sth;
          ((bt', arrays'), added) = Update flds upd ky (trees ! currentMemStore ins, arrays);
          st' = (ins, rs, trees[currentMemStore ins := bt'])
      in if Bytes bt' \<ge> maxMemStoreBytes
         then (let (st'', fr) = flush st' in ((st'', arrays'), fr))
         else ((st', arrays'), None))"

fun is_returned :: "error \<Rightarrow> bool" where
  "is_returned (ReturnedError msg) = True"
| "is_returned _ = False"

text \<open>One round of \<open>processFlushes\<close>. The error that \<open>fs.iterate\<close> returns is not looked at,
  only a panic stops the round. \<open>newFileStoreName\<close> is the name made from the time of the
  rename, \<open>ctx\<close> the context that \<open>iterate\<close> draws.\<close>

definition processFlush ::
  "(field \<Rightarrow> sequence \<Rightarrow> sequence \<Rightarrow> sequence) \<Rightarrow> (nat \<Rightarrow> sequence \<Rightarrow> sequence) \<Rightarrow> int64 \<Rightarrow> string \<Rightarrow>
   flushRequest \<Rightarrow> filesystem \<times> rowStore \<times> mem \<Rightarrow> error + (filesystem \<times> rowStore \<times> mem)" where
  "processFlush mergeSeq truncateSeq ctx newFileStoreName req st =
     (let (fsys, rs, m) = st;
          tfields = Fields (rs_tbl rs);
          finish = (\<lambda>(m', cout).
             Inr (fsys(newFileStoreName := Contents (closeFile tfields (sorting req) cout)),
                  rs\<lparr>memStores := (memStores rs)(idx req := None),
                     fileStore := \<lparr>tbl = rs_tbl rs, filename = newFileStoreName\<rparr>\<rparr>,
                  m'))
      in case fileStore_iterate fsys mergeSeq ctx (fileStore rs) (writeRow truncateSeq tfields)
                [Some (memstore req)] [] (m, []) of
           Inl (e, st') \<Rightarrow> if is_returned e then finish st' else Inl e
         | Inr st' \<Rightarrow> finish st')"

subsection \<open>rowStore.iterate\<close>

text \<open>The loop \<open>for i := 0; i < cap(memStoresCopy); i++\<close>: the map is read at \<open>i\<close>, and the
  entry is copied when \<open>i\<close> is \<open>len(rs.memStores) - 1\<close>. \<open>Copy\<close> reads its receiver at once,
  so copying nil panics. A copy is a new tree at a new address.\<close>

fun copyMemStores :: "(int \<Rightarrow> nat option) \<Rightarrow> int \<Rightarrow> nat list \<Rightarrow> Tree list \<Rightarrow> error + (nat option list \<times> Tree list)" where
  "copyMemStores ms len [] trees = Inr ([], trees)"
| "copyMemStores ms len (i # rest) trees =
     (let onCurrentMemStore = (int i = len - 1)
      in case (if onCurrentMemStore
               then (case ms (int i) of
                       None \<Rightarrow> Inl NilDereference
                     | Some a \<Rightarrow> Inr (Some (length trees), trees @ [Copy (trees ! a)]))
               else Inr (ms (int i), trees)) of
           Inl e \<Rightarrow> Inl e
         | Inr (p, trees') \<Rightarrow>
             (case copyMemStores ms len rest trees' of
                Inl e \<Rightarrow> Inl e
              | Inr (memStoresCopy, trees'') \<Rightarrow> Inr (p # memStoresCopy, trees'')))"

text \<open>What \<open>rowStore.iterate\<close> does under the read lock: the snapshot \<open>memStoresCopy\<close>.\<close>

definition snapshotMemStores :: "rowStore \<Rightarrow> Tree list \<Rightarrow> error + (nat option list \<times> Tree list)" where
  "snapshotMemStores rs trees =
     (let len = int (card (dom (memStores rs)));
          memStoresToInclude = (if \<not> IncludeMemStoreInQuery (rs_tbl rs) then len - 1 else len)
      in if memStoresToInclude < 0 then Inl (ExplicitPanic ''makeslice: cap out of range'')
         else copyMemStores (memStores rs) len [0..<nat memStoresToInclude] trees)"

definition rowStore_iterate ::
  "filesystem \<Rightarrow> (field \<Rightarrow> sequence \<Rightarrow> sequence \<Rightarrow> sequence) \<Rightarrow> int64 \<Rightarrow> rowStore \<Rightarrow> string list \<Rightarrow>
   ('o \<Rightarrow> byte list \<Rightarrow> sequence list \<Rightarrow> error + (sequence list \<times> 'o)) \<Rightarrow> mem \<times> 'o \<Rightarrow> 'o outcome" where
  "rowStore_iterate fsys mergeSeq ctx rs flds onValue st =
     (let ((trees, arrays), out) = st
      in case snapshotMemStores rs trees of
           Inl e \<Rightarrow> Inl (e, st)
         | Inr (memStoresCopy, trees') \<Rightarrow>
             fileStore_iterate fsys mergeSeq ctx (fileStore rs) onValue memStoresCopy flds
               ((trees', arrays), out))"


section \<open>float64 arithmetic\<close>

text \<open>Go's \<open>float64\<close> is the IEEE-754 binary64 format and \<open>+\<close> on it is the addition of
  that standard, rounded to nearest, ties to even. A bit pattern has a sign bit, an
  11-bit exponent field and a 52-bit fraction field; with exponent field \<open>e\<close> and fraction
  \<open>f\<close> a finite number is \<open>f64_sig * 2 ^ (f64_exp - 1075)\<close>, where the significand carries the
  hidden bit unless \<open>e = 0\<close>.\<close>

definition f64_sign :: "float64 \<Rightarrow> bool" where
  "f64_sign w = (unat w \<ge> 2 ^ 63)"

definition f64_expo :: "float64 \<Rightarrow> nat" where
  "f64_expo w = (unat w div 2 ^ 52) mod 2048"

definition f64_frac :: "float64 \<Rightarrow> nat" where
  "f64_frac w = unat w mod 2 ^ 52"

definition f64_is_nan :: "float64 \<Rightarrow> bool" where
  "f64_is_nan w = (f64_expo w = 2047 \<and> f64_frac w \<noteq> 0)"

definition f64_is_inf :: "float64 \<Rightarrow> bool" where
  "f64_is_inf w = (f64_expo w = 2047 \<and> f64_frac w = 0)"

definition f64_sig :: "float64 \<Rightarrow> nat" where
  "f64_sig w = (if f64_expo w = 0 then f64_frac w else 2 ^ 52 + f64_frac w)"

definition f64_exp :: "float64 \<Rightarrow> nat" where
  "f64_exp w = (if f64_expo w = 0 then 1 else f64_expo w)"

definition f64_pack :: "bool \<Rightarrow> nat \<Rightarrow> nat \<Rightarrow> float64" where
  "f64_pack neg e f = of_nat ((if neg then 2 ^ 63 else 0) + e * 2 ^ 52 + f)"

definition f64_inf :: "bool \<Rightarrow> float64" where
  "f64_inf neg = f64_pack neg 2047 0"

text \<open>The bits of a NaN result are not fixed by the language; the quiet NaN with an empty
  payload stands for it.\<close>

definition f64_nan :: float64 where
  "f64_nan = f64_pack False 2047 (2 ^ 51)"

text \<open>The \<open>==\<close> of Go against the constant 0: true for both zeros.\<close>

definition f64_is_zero :: "float64 \<Rightarrow> bool" where
  "f64_is_zero w = (f64_expo w = 0 \<and> f64_frac w = 0)"

text \<open>The number of binary digits of a natural number.\<close>

fun bitlen :: "nat \<Rightarrow> nat" where
  "bitlen n = (if n = 0 then 0 else Suc (bitlen (n div 2)))"

declare bitlen.simps [simp del]

text \<open>Rounding of the positive number \<open>m * 2 ^ (e - 1075)\<close>, \<open>e \<ge> 1\<close>, to a float64. With at
  most 53 digits it is exact and only normalised; otherwise the digits below the 53rd
  are rounded to nearest, ties to even, and an exponent beyond the format gives
  infinity.\<close>

definition f64_round :: "bool \<Rightarrow> nat \<Rightarrow> nat \<Rightarrow> float64" where
  "f64_round neg m e =
     (let len = bitlen m
      in if len \<le> 53 then
           (let sh = min (53 - len) (e - 1);
                m' = m * 2 ^ sh
            in if m' < 2 ^ 52 then f64_pack neg 0 m'
               else f64_pack neg (e - sh) (m' - 2 ^ 52))
         else
           (let k = len - 53;
                q = m div 2 ^ k;
                r = m mod 2 ^ k;
                q' = (if 2 * r > 2 ^ k \<or> (2 * r = 2 ^ k \<and> odd q) then q + 1 else q);
                carry = (q' = 2 ^ 53);
                e' = (if carry then e + k + 1 else e + k)
            in if e' \<ge> 2047 then f64_inf neg
               else f64_pack neg e' ((if carry then 2 ^ 52 else q') - 2 ^ 52)))"

text \<open>\<open>a + b\<close>. Infinities and zeros first (the sum of two zeros is negative only if both
  are); otherwise the exact sum of the two numbers, written over the smaller exponent,
  is rounded. An exact sum of zero is positive.\<close>

definition f64_add :: "float64 \<Rightarrow> float64 \<Rightarrow> float64" where
  "f64_add a b =
     (if f64_is_nan a \<or> f64_is_nan b then f64_nan
      else if f64_is_inf a then
        (if f64_is_inf b \<and> f64_sign a \<noteq> f64_sign b then f64_nan else f64_inf (f64_sign a))
      else if f64_is_inf b then f64_inf (f64_sign b)
      else if f64_sig a = 0 \<and> f64_sig b = 0 then f64_pack (f64_sign a \<and> f64_sign b) 0 0
      else if f64_sig a = 0 then b
      else if f64_sig b = 0 then a
      else
        (let e = min (f64_exp a) (f64_exp b);
             sa = int (f64_sig a * 2 ^ (f64_exp a - e));
             sb = int (f64_sig b * 2 ^ (f64_exp b - e));
             s = (if f64_sign a then - sa else sa) + (if f64_sign b then - sb else sb)
         in if s = 0 then f64_pack False 0 0
            else f64_round (s < 0) (nat \<bar>s\<bar>) e))"

text \<open>Rounding of the positive number between \<open>m * 2 ^ x\<close> and \<open>(m + 1) * 2 ^ x\<close>, equal to the
  former unless \<open>sticky\<close>, to a float64 (\<open>x\<close> may be negative). The unit of the result is
  \<open>2 ^ t\<close>: it keeps 53 digits, fewer below the normal range.\<close>

definition f64_round_sticky :: "bool \<Rightarrow> nat \<Rightarrow> bool \<Rightarrow> int \<Rightarrow> float64" where
  "f64_round_sticky neg m sticky x =
     (let t = max (x + int (bitlen m) - 53) (- 1074);
          k = nat (t - x);
          q = m div 2 ^ k;
          r = m mod 2 ^ k;
          q' = (if 2 * r > 2 ^ k \<or> (2 * r = 2 ^ k \<and> (sticky \<or> odd q)) then q + 1 else q);
          v = nat (t + 1074) * 2 ^ 52 + q'
      in if v \<ge> 2047 * 2 ^ 52 then f64_inf neg
         else of_nat ((if neg then 2 ^ 63 else 0) + v))"

text \<open>\<open>a / b\<close>. The quotient of the significands is taken with 128 more digits, so that it
  has more than 53, and what remains of the division is the sticky bit.\<close>

definition f64_div :: "float64 \<Rightarrow> float64 \<Rightarrow> float64" where
  "f64_div a b =
     (let neg = (f64_sign a \<noteq> f64_sign b)
      in if f64_is_nan a \<or> f64_is_nan b then f64_nan
         else if f64_is_inf a then (if f64_is_inf b then f64_nan else f64_inf neg)
         else if f64_is_inf b then f64_pack neg 0 0
         else if f64_sig b = 0 then (if f64_sig a = 0 then f64_nan else f64_inf neg)
         else if f64_sig a = 0 then f64_pack neg 0 0
         else
           (let n = f64_sig a * 2 ^ 128;
                q = n div f64_sig b;
                r = n mod f64_sig b
            in f64_round_sticky neg q (r \<noteq> 0) (int (f64_exp a) - int (f64_exp b) - 128)))"

section \<open>expr/avg.go\<close>

text \<open>A state is a slice into the buffer of a sequence. A function here takes the bytes of
  the slice it is given and returns, besides its results, those bytes as it leaves them
  where it writes to them. Indexing and slicing beyond the slice panic.\<close>

definition Float64frombits_Uint64 :: "byte list \<Rightarrow> float64" where
  "Float64frombits_Uint64 b = word_of_nat (le_decode (take width64bits b))"

definition PutUint64_Float64bits :: "float64 \<Rightarrow> byte list" where
  "PutUint64_Float64bits v = le_encode width64bits (unat v)"

definition avg_encodedWidth :: "nat \<Rightarrow> nat" where
  "avg_encodedWidth wrappedEncodedWidth = width64bits * 2 + 1 + wrappedEncodedWidth"

definition avg_load :: "byte list \<Rightarrow> error + (float64 \<times> float64 \<times> bool \<times> byte list)" where
  "avg_load b =
     (if length b < width64bits * 2 + 1 then Inl SliceBoundsOutOfRange
      else (let remain = drop (width64bits * 2 + 1) b;
                wasSet = (b ! 0 = 1)
            in if wasSet
               then Inr (Float64frombits_Uint64 (drop 1 b),
                         Float64frombits_Uint64 (drop (width64bits + 1) b), wasSet, remain)
               else Inr (0, 0, wasSet, remain)))"

text \<open>\<open>save\<close> returns the slice after its state; the first component here is \<open>b\<close> as
  written.\<close>

definition avg_save :: "byte list \<Rightarrow> float64 \<Rightarrow> float64 \<Rightarrow> error + (byte list \<times> byte list)" where
  "avg_save b count totl =
     (if length b < width64bits * 2 + 1 then Inl IndexOutOfRange
      else Inr (1 # PutUint64_Float64bits count @ PutUint64_Float64bits totl
                  @ drop (width64bits * 2 + 1) b,
                drop (width64bits * 2 + 1) b))"

definition avg_calc :: "float64 \<Rightarrow> float64 \<Rightarrow> float64" where
  "avg_calc count totl = (if f64_is_zero count then 0 else f64_div totl count)"

text \<open>\<open>update\<close>: \<open>wrappedUpdate\<close> is \<open>e.wrapped.Update\<close> on the rest of the state, with the
  parameters of the point; it yields that rest as it leaves it, the slice after it, its
  value and whether it was updated. \<open>count++\<close> adds 1.0.\<close>

definition avg_update ::
  "(byte list \<Rightarrow> error + (byte list \<times> byte list \<times> float64 \<times> bool)) \<Rightarrow>
   byte list \<Rightarrow> error + (byte list \<times> byte list \<times> float64 \<times> bool)" where
  "avg_update wrappedUpdate b =
     (case avg_load b of
        Inl e \<Rightarrow> Inl e
      | Inr (count, totl, wasSet, more_b) \<Rightarrow>
          (case wrappedUpdate more_b of
             Inl e \<Rightarrow> Inl e
           | Inr (more_b', remain, wrappedValue, updated) \<Rightarrow>
               if updated then
                 (let count1 = f64_add count 0x3FF0000000000000;
                      total1 = f64_add totl wrappedValue
                  in case avg_save (take (width64bits * 2 + 1) b @ more_b') count1 total1 of
                       Inl e \<Rightarrow> Inl e
                     | Inr (b', rest) \<Rightarrow> Inr (b', remain, avg_calc count1 total1, updated))
               else Inr (take (width64bits * 2 + 1) b @ more_b', remain,
                         avg_calc count totl, updated)))"

text \<open>\<open>merge\<close>: the results are \<open>b\<close> as written, and the three slices returned.\<close>

definition avg_merge :: "byte list \<Rightarrow> byte list \<Rightarrow> byte list \<Rightarrow> error + (byte list \<times> byte list \<times> byte list \<times> byte list)" where
  "avg_merge b x y =
     (case avg_load x of
        Inl e \<Rightarrow> Inl e
      | Inr (countX, totalX, xWasSet, remainX) \<Rightarrow>
     (case avg_load y of
        Inl e \<Rightarrow> Inl e
      | Inr (countY, totalY, yWasSet, remainY) \<Rightarrow>
          if \<not> xWasSet then
            (if yWasSet then
               (case avg_save b countY totalY of
                  Inl e \<Rightarrow> Inl e
                | Inr (b', rest) \<Rightarrow> Inr (b', rest, remainX, remainY))
             else if length b < width64bits * 2 + 1 then Inl SliceBoundsOutOfRange
             else Inr (b, drop (width64bits * 2 + 1) b, remainX, remainY))
          else
            (let countX' = (if yWasSet then f64_add countX countY else countX);
                 totalX' = (if yWasSet then f64_add totalX totalY else totalX)
             in case avg_save b countX' totalX' of
                  Inl e \<Rightarrow> Inl e
                | Inr (b', rest) \<Rightarrow> Inr (b', rest, remainX, remainY))))"

definition avg_get :: "byte list \<Rightarrow> error + (float64 \<times> bool \<times> byte list)" where
  "avg_get b =
     (case avg_load b of
        Inl e \<Rightarrow> Inl e
      | Inr (count, totl, wasSet, remain) \<Rightarrow>
          if \<not> wasSet then Inr (0, wasSet, remain)
          else Inr (avg_calc count totl, wasSet, remain))"

text \<open>For stating properties of states: the 17 bytes of a state with a flag byte, a count
  and a total, and what \<open>merge\<close> leaves in a zeroed destination of the width of the
  expression (nothing, here, when it panics).\<close>

definition avg_state :: "byte \<Rightarrow> float64 \<Rightarrow> float64 \<Rightarrow> byte list" where
  "avg_state flag count totl = flag # PutUint64_Float64bits count @ PutUint64_Float64bits totl"

definition avg_merged :: "nat \<Rightarrow> byte list \<Rightarrow> byte list \<Rightarrow> byte list" where
  "avg_merged wrappedEncodedWidth x y =
     (case avg_merge (replicate (avg_encodedWidth wrappedEncodedWidth) 0) x y of
        Inl e \<Rightarrow> []
      | Inr (b', rest) \<Rightarrow> b')"

section \<open>Properties of the byte tree\<close>

lemma copy_target_sel [simp]:
  "key (copy_target n) = key n" "data (copy_target n) = data n"
  "removedFor (copy_target n) = []" "edges (copy_target n) = copy_edges (edges n)"
  by (cases n; simp)+

lemma wasRemovedFor_copy [simp]: "wasRemovedFor (copy_target n) ctx = False"
  by (simp add: wasRemovedFor_def)

lemma wasRemovedFor_zero [simp]: "wasRemovedFor n 0 = False"
  by (simp add: wasRemovedFor_def)

lemma enumerate_copy_edges:
  "map (\<lambda>(i, e). (p @ [i], target e)) (enumerate k (copy_edges es)) =
   map (\<lambda>(p, n). (p, copy_target n)) (map (\<lambda>(i, e). (p @ [i], target e)) (enumerate k es))"
proof (induction es arbitrary: k)
  case Nil
  show ?case by simp
next
  case (Cons e es)
  then show ?case by (cases e) simp
qed

text \<open>Walking copies under any context makes the calls that an unfiltered walk of the
  originals makes.\<close>

lemma walk_queue_copy:
  "walk_queue ctx fn (map (\<lambda>(p, n). (p, copy_target n)) q) s removed = walk_queue 0 fn q s removed"
proof (induction "0 :: int64" fn q s removed rule: walk_queue.induct)
  case (1 fn s removed)
  then show ?case by simp
next
  case (2 fn p n nodes s removed)
  let ?v = "\<lambda>m c. (case data m of None \<Rightarrow> (s, removed)
      | Some d \<Rightarrow> if wasRemovedFor m c then (s, removed)
                  else (let (keep, s1) = fn s (key m) d
                        in if \<not> keep then (s1, removed @ [p]) else (s1, removed)))"
  have veq: "?v (copy_target n) ctx = ?v n 0"
    by (simp split: option.splits)
  have ih: "walk_queue ctx fn
       (map (\<lambda>(p, n). (p, copy_target n))
         (nodes @ map (\<lambda>(i, e). (p @ [i], target e)) (enumerate 0 (edges n))))
         (fst (?v n 0)) (snd (?v n 0)) =
      walk_queue 0 fn (nodes @ map (\<lambda>(i, e). (p @ [i], target e)) (enumerate 0 (edges n)))
         (fst (?v n 0)) (snd (?v n 0))"
    by (rule 2[OF refl]) simp
  have "walk_queue ctx fn (map (\<lambda>(p, n). (p, copy_target n)) ((p, n) # nodes)) s removed =
        walk_queue ctx fn
          (map (\<lambda>(p, n). (p, copy_target n)) nodes @
           map (\<lambda>(i, e). (p @ [i], target e)) (enumerate 0 (edges (copy_target n))))
          (fst (?v (copy_target n) ctx)) (snd (?v (copy_target n) ctx))"
    by (simp add: split_beta del: wasRemovedFor_copy copy_target_sel)
  also have "\<dots> = walk_queue ctx fn
       (map (\<lambda>(p, n). (p, copy_target n))
         (nodes @ map (\<lambda>(i, e). (p @ [i], target e)) (enumerate 0 (edges n))))
         (fst (?v n 0)) (snd (?v n 0))"
    unfolding veq by (simp add: enumerate_copy_edges del: map_map)
  also note ih
  also have "walk_queue 0 fn (nodes @ map (\<lambda>(i, e). (p @ [i], target e)) (enumerate 0 (edges n)))
         (fst (?v n 0)) (snd (?v n 0)) = walk_queue 0 fn ((p, n) # nodes) s removed"
    by (simp add: split_beta del: wasRemovedFor_zero)
  finally show ?case .
qed

lemma remove_copy:
  "snd (remove_node ctx (copy_target n) ky) = snd (remove_node 0 n ky)"
  "snd (remove_edges ctx (copy_edges es) ky) = snd (remove_edges 0 es ky)"
proof (induction "0 :: int64" n ky and "0 :: int64" es ky rule: remove_node_remove_edges.induct)
  case (1 k es d r ky)
  then show ?case by (simp add: split_beta)
next
  case (2 ky)
  show ?case by simp
next
  case (3 lbl tgt es ky)
  let ?i = "matchLen lbl ky"
  consider (found) "?i = length ky \<and> length ky = length lbl"
    | (descend) "\<not> (?i = length ky \<and> length ky = length lbl)" "?i = length lbl \<and> length lbl < length ky"
    | (next_edge) "\<not> (?i = length ky \<and> length ky = length lbl)" "\<not> (?i = length lbl \<and> length lbl < length ky)"
    by blast
  then show ?case
  proof cases
    case found
    then show ?thesis by (simp add: Let_def)
  next
    case descend
    from 3(1)[OF refl refl refl descend] descend
    show ?thesis by (auto simp: Let_def split_beta)
  next
    case next_edge
    from 3(2)[OF refl refl refl next_edge] next_edge
    show ?thesis by (auto simp: Let_def split_beta)
  qed
qed

lemma marks_copy:
  "marks (copy_target n) = []"
  "marks_edges (copy_edges es) = []"
  by (induction n and es rule: marks_marks_edges.induct) simp_all

text \<open>The root never carries data: it starts empty, \<open>Update\<close> and \<open>Remove\<close> only write
  to the targets of edges, and \<open>Walk\<close> only marks.\<close>

lemma root_data_New: "data (root New) = None"
  by (simp add: New_def)

lemma root_data_Update:
  "data (root bt) = None \<Longrightarrow> data (root (fst (fst (Update flds upd ky (bt, h))))) = None"
  by (cases "root bt") (simp add: Update_def split_beta split: option.splits)

lemma root_data_Remove: "data (root bt) = None \<Longrightarrow> data (root (fst (Remove bt ctx ky))) = None"
  by (cases "root bt") (simp add: Remove_def split_beta)

lemma data_markRemoved: "data (markRemoved ctx p n) = data n"
  by (cases n; cases p) (simp_all add: doRemoveFor_def)

lemma root_data_Walk: "data (root bt) = None \<Longrightarrow> data (root (fst (Walk bt ctx fn s))) = None"
proof -
  have "data (fold (markRemoved ctx) ps n) = data n" for ps n
    by (induction ps arbitrary: n) (simp_all add: data_markRemoved)
  then show "data (root bt) = None \<Longrightarrow> data (root (fst (Walk bt ctx fn s))) = None"
    by (simp add: Walk_def split_beta)
qed

lemma root_data_Copy: "data (root (Copy bt)) = None"
  by (simp add: Copy_def)

text \<open>Claim C6, at the input where it fails. The key \<open>ab\<close> is inserted, then its prefix
  \<open>a\<close>: the edge is split and the new inner node receives the data of \<open>a\<close>, but its \<open>key\<close>
  is never set. \<open>Walk(0, fn)\<close> then calls \<open>fn\<close> with the nil key and with \<open>ab\<close>, never with
  \<open>a\<close>.\<close>

theorem Walk_prefix_key_reported_nil:
  "(let (bt, h) = fst (Update [f] upd [97] (fst (Update [f] upd [97, 98] (New, []))))
    in snd (Walk bt 0 (\<lambda>s k d. (True, s @ [(k, h ! d)])) []))
   = [([], [upd f []]), ([97, 98], [upd f []])]"
  by (simp add: Update_def New_def node_doUpdate_def edge_split_def Walk_def Let_def
        doRemoveFor_def)

text \<open>Claim C9. \<open>Tree.Copy\<close> keeps the \<open>bytes\<close> and \<open>length\<close> counters and carries no
  \<open>removedFor\<close> mark. Walking the copy under any \<open>ctx\<close> makes the very calls of \<open>fn\<close>, same
  keys and same data slices (the slice itself, not a copy of its array), that the walk of
  the original under the sentinel 0 makes, which sees every node; and \<open>Remove\<close> on the
  copy under any \<open>ctx\<close> returns the slice that \<open>Remove\<close> under 0 finds in the original.\<close>

theorem Copy_keeps_entries_drops_marks:
  assumes "data (root bt) = None"
  shows "bytes (Copy bt) = bytes bt \<and> length_t (Copy bt) = length_t bt \<and>
         marks (root (Copy bt)) = [] \<and>
         snd (Walk (Copy bt) ctx fn s) = snd (Walk bt 0 fn s) \<and>
         snd (Remove (Copy bt) ctx ky) = snd (Remove bt 0 ky)"
proof -
  obtain k es d r where rt: "root bt = Node k es d r"
    by (cases "root bt")
  with assms have d: "d = None" by simp
  have m: "marks (root (Copy bt)) = []"
    by (simp add: Copy_def marks_copy)
  have "walk_queue ctx fn [([], Node [] (copy_edges es) None [])] s [] =
        walk_queue ctx fn (map (\<lambda>(p, n). (p, copy_target n)) [([], Node k es None r)]) s []"
    by simp
  also have "\<dots> = walk_queue 0 fn [([], Node k es None r)] s []"
    by (rule walk_queue_copy)
  finally have w: "snd (Walk (Copy bt) ctx fn s) = snd (Walk bt 0 fn s)"
    by (simp add: Walk_def Copy_def rt d split_beta)
  have rm: "snd (Remove (Copy bt) ctx ky) = snd (Remove bt 0 ky)"
    using remove_copy(2)[of ctx es ky] by (simp add: Remove_def Copy_def rt split_beta)
  show ?thesis
    using m w rm by (simp add: Copy_def)
qed

theorem Copy_keeps_entries_drops_marks_witness:
  "data (root \<lparr>root = Node [] [Edge [97] (Node [] [Edge [98] (Node [97, 98] [] (Some 0) [5])]
                                  (Some 1) [5, 6])] None [], bytes = 4, length_t = 2\<rparr>) = None \<and>
   snd (Walk \<lparr>root = Node [] [Edge [97] (Node [] [Edge [98] (Node [97, 98] [] (Some 0) [5])]
                                  (Some 1) [5, 6])] None [], bytes = 4, length_t = 2\<rparr>
             5 (\<lambda>s k d. (False, s @ [(k, d)])) []) = [] \<and>
   snd (Walk (Copy \<lparr>root = Node [] [Edge [97] (Node [] [Edge [98] (Node [97, 98] [] (Some 0) [5])]
                                  (Some 1) [5, 6])] None [], bytes = 4, length_t = 2\<rparr>)
             5 (\<lambda>s k d. (False, s @ [(k, d)])) []) = [([], 1), ([97, 98], 0)] \<and>
   snd (Remove (Copy \<lparr>root = Node [] [Edge [97] (Node [] [Edge [98] (Node [97, 98] [] (Some 0) [5])]
                                  (Some 1) [5, 6])] None [], bytes = 4, length_t = 2\<rparr>)
             5 [97, 98]) = Some 0"
proof -
  let ?bt = "\<lparr>root = Node [] [Edge [97] (Node [] [Edge [98] (Node [97, 98] [] (Some 0) [5])]
                                  (Some 1) [5, 6])] None [], bytes = 4, length_t = 2\<rparr>"
  let ?fn = "\<lambda>(s :: (byte list \<times> nat) list) k d. (False, s @ [(k, d)])"
  have h: "data (root ?bt) = None" by simp
  have w5: "snd (Walk ?bt 5 ?fn []) = []"
    by (simp add: Walk_def wasRemovedFor_def)
  have w0: "snd (Walk ?bt 0 ?fn []) = [([], 1), ([97, 98], 0)]"
    by (simp add: Walk_def)
  have r0: "snd (Remove ?bt 0 [97, 98]) = Some 0"
    by (simp add: Remove_def doRemoveFor_def)
  from Copy_keeps_entries_drops_marks [OF h, of 5 ?fn "[]" "[97, 98]"] w0 r0
  have "snd (Walk (Copy ?bt) 5 ?fn []) = [([], 1), ([97, 98], 0)] \<and>
        snd (Remove (Copy ?bt) 5 [97, 98]) = Some 0"
    by simp
  with h w5 show ?thesis by blast
qed

section \<open>Properties of the binary encoding and the row loop\<close>

lemma length_le_encode [simp]: "length (le_encode n v) = n"
  by (induction n arbitrary: v) simp_all

lemma le_decode_encode: "le_decode (le_encode n v) = v mod 256 ^ n"
proof (induction n arbitrary: v)
  case 0
  show ?case by simp
next
  case (Suc n)
  have "unat (of_nat (v mod 256) :: byte) = v mod 256"
    by (simp add: unat_of_nat)
  then show ?case
    using Suc [of "v div 256"] by (simp add: mod_mult2_eq)
qed

lemma readInt16_encode:
  "n < 65536 \<Longrightarrow> readInt16 (le_encode width16bits n @ rest) = Inr (n, rest)"
  by (simp add: readInt16_def le_decode_encode width16bits_def)

lemma readInt64_encode:
  assumes "n < 2 ^ 63"
  shows "readInt64 (le_encode width64bits n @ rest) = Inr (int n, rest)"
proof -
  have "n < 256 ^ 8" using assms by simp
  then have d: "le_decode (le_encode 8 n) = n" by (simp add: le_decode_encode)
  have "int n < 2 ^ 63" using assms by (simp add: of_nat_less_numeral_power_cancel_iff)
  then have "sint (word_of_nat n :: 64 word) = int n"
    by (simp add: signed_of_nat signed_take_bit_int_eq_self)
  then show ?thesis
    by (simp add: readInt64_def width64bits_def d)
qed

lemma readColLengths_encode:
  "\<forall>seq \<in> set cs. length seq < 2 ^ 63 \<Longrightarrow>
   readColLengths (length cs) (concat (map (\<lambda>seq. le_encode width64bits (length seq)) cs) @ rest)
   = Inr (map (\<lambda>seq. int (length seq)) cs, rest)"
  by (induction cs) (simp_all add: readInt64_encode)

lemma readSequence_prefix:
  "readSequence (seq @ rest) (int (length seq)) = Inr (seq, rest)"
  by (simp add: readSequence_def)

lemma readColumns_encode:
  "readColumns (\<lambda>i. True) i (map (\<lambda>seq. int (length seq)) cs) (concat cs @ rest)
   = Inr (cs, \<exists>seq \<in> set cs. seq \<noteq> [])"
  by (induction cs arbitrary: i) (simp_all add: readSequence_prefix)

text \<open>The part of a row after its length.\<close>

definition rowBody :: "byte list \<Rightarrow> sequence list \<Rightarrow> byte list" where
  "rowBody ky columns =
     le_encode width16bits (length ky) @ ky @ le_encode width16bits (length columns)
     @ concat (map (\<lambda>seq. le_encode width64bits (length seq)) columns) @ concat columns"

lemma length_concat_lengths:
  "length (concat (map (\<lambda>seq. le_encode width64bits (length seq)) cs)) + length (concat cs)
   = sum_list (map (\<lambda>seq. width64bits + length seq) cs)"
  by (induction cs) simp_all

lemma encodeRow_rowBody:
  "encodeRow ky cs = le_encode width64bits (width64bits + length (rowBody ky cs)) @ rowBody ky cs"
proof -
  have "length (rowBody ky cs)
        = width16bits + length ky + width16bits + sum_list (map (\<lambda>seq. width64bits + length seq) cs)"
    using length_concat_lengths [of cs] by (simp add: rowBody_def)
  then show ?thesis
    by (simp add: encodeRow_def rowBody_def Let_def add.assoc)
qed

lemma length_encodeRow: "length (encodeRow ky cs) = width64bits + length (rowBody ky cs)"
  by (simp add: encodeRow_rowBody)

lemma column_length_le_row: "seq \<in> set cs \<Longrightarrow> length seq \<le> length (rowBody ky cs)"
proof -
  assume "seq \<in> set cs"
  then have "length seq \<le> length (concat cs)"
    by (induction cs) auto
  then show ?thesis by (simp add: rowBody_def)
qed

lemma parseRow_rowBody:
  assumes "length ky < 65536" and "length cs < 65536"
    and "\<forall>seq \<in> set cs. length seq < 2 ^ 63"
  shows "parseRow (\<lambda>i. True) (rowBody ky cs) = Inr (ky, cs, \<exists>seq \<in> set cs. seq \<noteq> [])"
proof -
  have "readColLengths (length cs)
          (concat (map (\<lambda>seq. le_encode width64bits (length seq)) cs) @ concat cs)
        = Inr (map (\<lambda>seq. int (length seq)) cs, concat cs)"
    by (rule readColLengths_encode [OF assms(3)])
  moreover have "readColumns (\<lambda>i. True) 0 (map (\<lambda>seq. int (length seq)) cs) (concat cs)
        = Inr (cs, \<exists>seq \<in> set cs. seq \<noteq> [])"
    using readColumns_encode [of 0 cs "[]"] by simp
  ultimately show ?thesis
    using assms(1,2)
    by (simp add: parseRow_def rowBody_def readInt16_encode readByteMap_def)
qed

lemma le_encode_numeral:
  "le_encode (numeral k) v = of_nat (v mod 256) # le_encode (pred_numeral k) (v div 256)"
  unfolding numeral_eq_Suc [of k] by (rule le_encode.simps)

lemma le_encode_eq_Nil: "le_encode n v = [] \<longleftrightarrow> n = 0"
  by (cases n) simp_all

lemma readRows_Nil: "readRows mergeSeq mf incMem incFile ctx onRow mss [] st = Inr st"
  by (subst readRows.simps) (simp add: split_beta)

lemma mergeFileRow_Nil: "mergeFileRow mergeSeq mf incMem ctx ky [] cs m = Inr (cs, m)"
  by simp

text \<open>One round of the row loop on a stream that starts with a whole row.\<close>

lemma readRows_row:
  assumes "parseRow incFile body = Inr (ky, cs, includes)" and "8 + length body < 2 ^ 63"
  shows "readRows mergeSeq mf incMem incFile ctx onRow mss
           (le_encode 8 (8 + length body) @ body @ rest) (m, out)
         = (case mergeFileRow mergeSeq mf incMem ctx ky mss cs m of
              Inl e \<Rightarrow> Inl (e, m, out)
            | Inr (cs', m') \<Rightarrow>
                if includes then
                  (case onRow out ky cs' of
                     Inl e \<Rightarrow> Inl (e, m', out)
                   | Inr (cs'', out') \<Rightarrow>
                       readRows mergeSeq mf incMem incFile ctx onRow mss rest (m', out'))
                else readRows mergeSeq mf incMem incFile ctx onRow mss rest (m', out))"
proof -
  have "8 + length body < 256 ^ 8" using assms(2) by simp
  then have d: "le_decode (le_encode 8 (8 + length body)) = 8 + length body"
    by (simp add: le_decode_encode)
  show ?thesis
    using assms(2)
    by (subst readRows.simps)
       (simp add: le_encode_eq_Nil d assms(1) width64bits_def Let_def split: sum.splits)
qed

lemma readRows_encodeRow:
  assumes "length ky < 65536" and "length cs < 65536"
    and "length (encodeRow ky cs) < 2 ^ 63"
  shows "readRows mergeSeq mf incMem (\<lambda>i. True) ctx onRow [] (encodeRow ky cs @ rest) (m, out)
         = (if \<exists>seq \<in> set cs. seq \<noteq> [] then
              (case onRow out ky cs of
                 Inl e \<Rightarrow> Inl (e, m, out)
               | Inr (cs', out') \<Rightarrow>
                   readRows mergeSeq mf incMem (\<lambda>i. True) ctx onRow [] rest (m, out'))
            else readRows mergeSeq mf incMem (\<lambda>i. True) ctx onRow [] rest (m, out))"
proof -
  let ?body = "rowBody ky cs"
  have n: "8 + length ?body < 2 ^ 63"
    using assms(3) by (simp add: length_encodeRow width64bits_def)
  have "\<forall>seq \<in> set cs. length seq < 2 ^ 63"
  proof
    fix seq assume "seq \<in> set cs"
    from column_length_le_row [OF this, of ky] n show "length seq < 2 ^ 63" by simp
  qed
  then have p: "parseRow (\<lambda>i. True) ?body = Inr (ky, cs, \<exists>seq \<in> set cs. seq \<noteq> [])"
    by (rule parseRow_rowBody [OF assms(1,2)])
  have r: "encodeRow ky cs @ rest = le_encode 8 (8 + length ?body) @ ?body @ rest"
    by (simp add: encodeRow_rowBody width64bits_def)
  show ?thesis
    unfolding r by (simp add: readRows_row [OF p n])
qed

lemma readRows_collectRows:
  assumes "\<forall>row \<in> set rows. length (fst row) < 65536 \<and> length (snd row) < 65536 \<and>
              length (encodeRow (fst row) (snd row)) < 2 ^ 63 \<and> (\<exists>seq \<in> set (snd row). seq \<noteq> [])"
  shows "readRows mergeSeq mf incMem (\<lambda>i. True) ctx collectRows []
           (concat (map (\<lambda>row. encodeRow (fst row) (snd row)) rows)) (m, out)
         = Inr (m, out @ rows)"
  using assms
proof (induction rows arbitrary: out)
  case Nil
  show ?case by (simp add: readRows_Nil)
next
  case (Cons row rows)
  obtain ky cs where row: "row = (ky, cs)" by (cases row)
  from Cons.prems row have wf: "length ky < 65536" "length cs < 65536"
    "length (encodeRow ky cs) < 2 ^ 63" "\<exists>seq \<in> set cs. seq \<noteq> []"
    by auto
  from Cons.prems have rest: "\<forall>row \<in> set rows. length (fst row) < 65536 \<and> length (snd row) < 65536 \<and>
              length (encodeRow (fst row) (snd row)) < 2 ^ 63 \<and> (\<exists>seq \<in> set (snd row). seq \<noteq> [])"
    by simp
  show ?case
    using wf(4) Cons.IH [OF rest, of "out @ [(ky, cs)]"]
    by (simp add: row readRows_encodeRow [OF wf(1,2,3)] collectRows_def)
qed

lemma string_of_bytes_of_string: "string_of_bytes (bytes_of_string s) = s"
  by (induction s) (simp_all add: string_of_bytes_def bytes_of_string_def unat_of_nat)

lemma Split_no_sep: "c \<notin> set s \<Longrightarrow> Split s c = [s]"
  by (induction s) auto

lemma Split_append_sep: "c \<notin> set s \<Longrightarrow> Split (s @ c # rest) c = s # Split rest c"
  by (induction s) auto

lemma Split_Join:
  "ss \<noteq> [] \<Longrightarrow> \<forall>s \<in> set ss. c \<notin> set s \<Longrightarrow> Split (Join ss c) c = ss"
proof (induction ss c rule: Join.induct)
  case (1 c)
  then show ?case by simp
next
  case (2 s c)
  then show ?case by (simp add: Split_no_sep)
next
  case (3 s v va c)
  then show ?case by (simp add: Split_append_sep)
qed

lemma findField_member: "f \<in> set tfields \<Longrightarrow> \<exists>g. findField tfields (String_of f) = Some g"
  by (induction tfields) auto

lemma reconcileFields_own_strings:
  "set fs \<subseteq> set tfields \<Longrightarrow> \<exists>ff. reconcileFields tfields (map String_of fs) = Inr ff"
proof (induction fs)
  case Nil
  show ?case by simp
next
  case (Cons f fs)
  then obtain ff where "reconcileFields tfields (map String_of fs) = Inr ff" by auto
  moreover obtain g where "findField tfields (String_of f) = Some g"
    using findField_member [of f tfields] Cons.prems by auto
  ultimately show ?case by simp
qed

lemma readHeader_own_header:
  assumes "tfields \<noteq> []" and "\<forall>f \<in> set tfields. CHR '','' \<notin> set (String_of f)"
    and "length (headerBytes tfields) < 2 ^ 32"
  shows "\<exists>ff. readHeader tfields
           (le_encode width32bits (length (headerBytes tfields)) @ headerBytes tfields @ rest)
         = Inr (ff, rest)"
proof -
  have "Split (Join (map String_of tfields) (CHR '','')) (CHR '','') = map String_of tfields"
    using assms(1,2) by (intro Split_Join) auto
  then have s: "Split (string_of_bytes (headerBytes tfields)) (CHR '','') = map String_of tfields"
    by (simp add: headerBytes_def string_of_bytes_of_string)
  obtain ff where ff: "reconcileFields tfields (map String_of tfields) = Inr ff"
    using reconcileFields_own_strings [of tfields tfields] by auto
  have "length (headerBytes tfields) < 256 ^ 4" using assms(3) by simp
  then have d: "le_decode (le_encode 4 (length (headerBytes tfields))) = length (headerBytes tfields)"
    by (simp add: le_decode_encode)
  show ?thesis
    by (simp add: readHeader_def width32bits_def d s ff)
qed

lemma sort_map_sort_key: "sort (map f xs) = map f (sort_key f xs)"
proof (induction xs)
  case Nil
  show ?case by simp
next
  case (Cons x xs)
  have "insort (f x) (map f ys) = map f (insort_key f x ys)" for ys
    by (induction ys) simp_all
  with Cons show ?case by simp
qed

text \<open>The example used below: the table field \<open>a\<close>, a version 2 file name, and the file
  with the header \<open>a\<close> and the single row \<open>k \<mapsto> [[5]]\<close>.\<close>

lemma example_version: "fileVersion_of ''d/filestore_00000000000000000001_2.dat'' = 2"
  by (simp add: fileVersion_of_def Base_def Atoi_def)

lemma example_body: "rowBody [107] [[5]] = [1, 0, 107, 1, 0, 1, 0, 0, 0, 0, 0, 0, 0, 5]"
  by (simp add: rowBody_def width16bits_def width64bits_def le_encode_numeral)

lemma example_row: "encodeRow [107] [[5]]
   = [22, 0, 0, 0, 0, 0, 0, 0, 1, 0, 107, 1, 0, 1, 0, 0, 0, 0, 0, 0, 0, 5]"
  by (simp add: encodeRow_rowBody example_body width64bits_def le_encode_numeral)

lemma example_stream:
  "closeFile [\<lparr>Name = ''a'', String_of = ''a'', EncodedWidth = 9\<rparr>] False [cs]
   = 1 # 0 # 0 # 0 # 97 # cs"
  by (simp add: closeFile_def headerBytes_def bytes_of_string_def width32bits_def
        le_encode_numeral)

lemma example_header:
  "readHeader (\<lparr>Name = ''a'', String_of = ''a'', EncodedWidth = 9\<rparr> # others)
     (1 # 0 # 0 # 0 # 97 # rest)
   = Inr ([\<lparr>Name = ''a'', String_of = ''a'', EncodedWidth = 9\<rparr>], rest)"
  by (simp add: readHeader_def width32bits_def string_of_bytes_def char_of_def bit_Suc_0_iff)



section \<open>Properties of the row store\<close>

lemma processFlush_memStores:
  "processFlush mergeSeq truncateSeq ctx nm req (fsys, rs, m) = Inr (fsys', rs', m') \<Longrightarrow>
   memStores rs' = (memStores rs)(idx req := None) \<and> rs_tbl rs' = rs_tbl rs"
  by (auto simp: processFlush_def Let_def split: sum.splits if_splits prod.splits)

lemma flush_memStores:
  "flush (ins, rs, trees) = ((ins', rs', trees'), Some fr) \<Longrightarrow>
   memStores rs' = (memStores rs)(memStoreIdx ins + 1 \<mapsto> length trees) \<and>
   idx fr = memStoreIdx ins \<and> memStoreIdx ins' = memStoreIdx ins + 1"
  by (auto simp: flush_def Let_def split: if_splits)

text \<open>Claim C7, at the input where it fails. A row store is opened on an empty
  directory, one insert fills the memstore of generation 0 and requests its flush, and
  the flush completes, which deletes generation 0 from \<open>memStores\<close>: the map is now
  \<open>{1: current}\<close>. With \<open>IncludeMemStoreInQuery\<close> on, \<open>rowStore.iterate\<close> reads the map at
  position 0, finds nil and calls \<open>copy\<close> on it. With the option off and the map
  \<open>{1: flushing, 2: current}\<close>, the snapshot is one nil tree: the flushing memstore is
  not in it.\<close>

theorem snapshotMemStores_after_flush:
  "(let tb = \<lparr>Fields = [f], IncludeMemStoreInQuery = True\<rparr>;
        ((ins, rs, trees), arrays) =
           fst (processInsert [f] (\<lambda>f c. [1]) 1 [107] (startInserts tb '''', []))
    in case processFlush mergeSeq (\<lambda>w s. s) 7 ''filestore_1_2.dat''
              \<lparr>idx = 0, memstore = 0, sorting = True\<rparr> (\<lambda>n. NotExist, rs, (trees, arrays)) of
         Inl e \<Rightarrow> Inl e
       | Inr (fsys, rs', m') \<Rightarrow> snapshotMemStores rs' (fst m'))
   = Inl NilDereference \<and>
   snapshotMemStores
     \<lparr>rs_tbl = \<lparr>Fields = flds, IncludeMemStoreInQuery = False\<rparr>,
      memStores = [1 \<mapsto> a, 2 \<mapsto> b], fileStore = fs\<rparr> trees = Inr ([None], trees)"
proof -
  have run: "(let tb = \<lparr>Fields = [f], IncludeMemStoreInQuery = True\<rparr>;
        ((ins, rs, trees), arrays) =
           fst (processInsert [f] (\<lambda>f c. [1]) 1 [107] (startInserts tb '''', []))
    in case processFlush mergeSeq (\<lambda>w s. s) 7 ''filestore_1_2.dat''
              \<lparr>idx = 0, memstore = 0, sorting = True\<rparr> (\<lambda>n. NotExist, rs, (trees, arrays)) of
         Inl e \<Rightarrow> Inl e
       | Inr (fsys, rs', m') \<Rightarrow> snapshotMemStores rs' (fst m'))
   = Inl NilDereference"
    apply (simp add: startInserts_def processInsert_def Update_def New_def node_doUpdate_def
             Let_def flush_def Bytes_def Length_def)
    apply (simp add: processFlush_def fileStore_iterate_def Walk_def walkCallback_def Let_def
             wasRemovedFor_def doRemoveFor_def writeRow_def cols_contents_def cols_store_def
             snapshotMemStores_def)
    done
  have off: "snapshotMemStores
     \<lparr>rs_tbl = \<lparr>Fields = flds, IncludeMemStoreInQuery = False\<rparr>,
      memStores = [1 \<mapsto> a, 2 \<mapsto> b], fileStore = fs\<rparr> trees = Inr ([None], trees)"
    by (simp add: snapshotMemStores_def)
  from run off show ?thesis by (rule conjI)
qed

text \<open>Where the generations in the map are \<open>0, ..., n - 1\<close>, as before the first flush has
  completed, the snapshot is as the comments of \<open>rowStore.iterate\<close> say: with two
  memstores and the option on, the older one is passed as it is and the current one as a
  copy at a new address.\<close>

lemma snapshotMemStores_before_flush:
  "snapshotMemStores
     \<lparr>rs_tbl = \<lparr>Fields = flds, IncludeMemStoreInQuery = True\<rparr>,
      memStores = [0 \<mapsto> a, 1 \<mapsto> b], fileStore = fs\<rparr> trees
   = Inr ([Some a, Some (length trees)], trees @ [Copy (trees ! b)])"
  "snapshotMemStores
     \<lparr>rs_tbl = \<lparr>Fields = flds, IncludeMemStoreInQuery = False\<rparr>,
      memStores = [0 \<mapsto> a, 1 \<mapsto> b], fileStore = fs\<rparr> trees
   = Inr ([Some a], trees)"
  by (simp_all add: snapshotMemStores_def upt_rec)

section \<open>Properties of the file store\<close>

text \<open>With no field filter, a memstore entry that has more columns than the file row
  always runs into the assignment past the end of \<open>columns\<close>.\<close>

lemma mergeFileColumns_wider:
  "length cs < length cs2 \<Longrightarrow> i \<le> length cs \<Longrightarrow>
   mergeFileColumns mergeSeq mf (\<lambda>i. True) i cs cs2 = Inl IndexOutOfRange"
proof (induction mergeSeq mf "\<lambda>i :: nat. True" i cs cs2 rule: mergeFileColumns.induct)
  case (1 mergeSeq mf i columns columns2)
  note wider = "1.prems"(1) and le = "1.prems"(2)
  show ?case
  proof (cases "i < length columns")
    case True
    show ?thesis
    proof (cases "i < length mf")
      case inrange: True
      from True wider have a: "i < length columns \<or> i < length columns2"
        "\<not> length columns2 \<le> i" "\<not> length columns \<le> i" by simp_all
      from inrange have b: "\<not> length mf \<le> i" by simp
      have c: "length (columns[i := mergeSeq (mf ! i) (columns ! i) (columns2 ! i)]) < length columns2"
        using wider by simp
      have d: "Suc i \<le> length (columns[i := mergeSeq (mf ! i) (columns ! i) (columns2 ! i)])"
        using True by simp
      from "1.hyps"(2) [OF a(1) TrueI a(2) a(3) b c d] True inrange wider
      show ?thesis
        by (subst mergeFileColumns.simps) simp
    next
      case False
      with True wider show ?thesis
        by (subst mergeFileColumns.simps) simp
    qed
  next
    case False
    with wider le show ?thesis
      by (subst mergeFileColumns.simps) simp
  qed
qed

text \<open>Claim C1, where it fails. The file (its header read, if it has one) starts with a
  row of the key \<open>ky\<close>, the first memstore has an entry for \<open>ky\<close> that this iteration has
  not removed, and the entry has more columns than the row. With no field filter,
  \<open>iterate\<close> panics with an index out of range on that row; \<open>onRow\<close> has not been called
  for it. The sibling loop over the memstores appends the column instead.\<close>

theorem iterate_wider_memstore_entry_panics:
  assumes "fsys (filename fs) = Contents bs"
    and "(if fileVersion_of (filename fs) \<ge> FileVersion_2
          then readHeader (Fields (tbl fs)) bs else Inr (Fields (tbl fs), bs))
         = Inr (fileFields, encodeRow ky cs @ rest)"
    and "length ky < 65536" and "length cs < 65536" and "length (encodeRow ky cs) < 2 ^ 63"
    and "Remove (fst m ! p) ctx ky = (bt', Some a)"
    and "length cs < length (snd m ! a)"
  shows "fileStore_iterate fsys mergeSeq ctx fs onRow (Some p # mss) [] (m, out)
         = Inl (IndexOutOfRange, m, out)"
proof -
  let ?body = "rowBody ky cs"
  have n: "8 + length ?body < 2 ^ 63"
    using assms(5) by (simp add: length_encodeRow width64bits_def)
  have "\<forall>seq \<in> set cs. length seq < 2 ^ 63"
  proof
    fix seq assume "seq \<in> set cs"
    from column_length_le_row [OF this, of ky] n show "length seq < 2 ^ 63" by simp
  qed
  then have p: "parseRow (\<lambda>i. True) ?body = Inr (ky, cs, \<exists>seq \<in> set cs. seq \<noteq> [])"
    by (rule parseRow_rowBody [OF assms(3,4)])
  have r: "encodeRow ky cs @ rest = le_encode 8 (8 + length ?body) @ ?body @ rest"
    by (simp add: encodeRow_rowBody width64bits_def)
  obtain trees arrays where m: "m = (trees, arrays)" by (cases m)
  have mg: "mergeFileRow mergeSeq (Fields (tbl fs)) (\<lambda>i. True) ctx ky (Some p # mss) cs m
            = Inl IndexOutOfRange"
    using assms(6,7)
    by (simp add: m slice_of_def mergeFileColumns_wider)
  have "readRows mergeSeq (Fields (tbl fs)) (\<lambda>i. True) (\<lambda>i. True) ctx onRow (Some p # mss)
          (encodeRow ky cs @ rest) (m, out) = Inl (IndexOutOfRange, m, out)"
    unfolding r by (simp add: readRows_row [OF p n] mg del: mergeFileRow.simps)
  then show ?thesis
    using assms(1,2)
    by (simp add: fileStore_iterate_def buildShouldInclude_def Let_def split: if_splits)
qed

theorem iterate_wider_memstore_entry_panics_witness:
  "fileStore_iterate
     (\<lambda>n. Contents (closeFile [\<lparr>Name = ''a'', String_of = ''a'', EncodedWidth = 9\<rparr>] False
                      [encodeRow [107] [[5]]]))
     (\<lambda>f x y. x) 7
     \<lparr>tbl = \<lparr>Fields = [\<lparr>Name = ''a'', String_of = ''a'', EncodedWidth = 9\<rparr>,
                        \<lparr>Name = ''b'', String_of = ''b'', EncodedWidth = 9\<rparr>],
             IncludeMemStoreInQuery = True\<rparr>,
      filename = ''d/filestore_00000000000000000001_2.dat''\<rparr>
     collectRows [Some 0] []
     (([\<lparr>root = Node [] [Edge [107] (Node [107] [] (Some 0) [])] None [],
         bytes = 3, length_t = 1\<rparr>], [[[6], [6]]]), [])
   = Inl (IndexOutOfRange,
          ([\<lparr>root = Node [] [Edge [107] (Node [107] [] (Some 0) [])] None [],
             bytes = 3, length_t = 1\<rparr>], [[[6], [6]]]), [])"
proof -
  let ?fa = "\<lparr>Name = ''a'', String_of = ''a'', EncodedWidth = 9\<rparr>"
  let ?fb = "\<lparr>Name = ''b'', String_of = ''b'', EncodedWidth = 9\<rparr>"
  let ?fs = "\<lparr>tbl = \<lparr>Fields = [?fa, ?fb], IncludeMemStoreInQuery = True\<rparr>,
              filename = ''d/filestore_00000000000000000001_2.dat''\<rparr>"
  let ?bs = "closeFile [?fa] False [encodeRow [107] [[5]]]"
  let ?bt = "\<lparr>root = Node [] [Edge [107] (Node [107] [] (Some 0) [])] None [],
              bytes = 3, length_t = 1\<rparr>"
  let ?m = "([?bt], [[[6], [6]]]) :: mem"
  have 1: "(\<lambda>n :: string. Contents ?bs) (filename ?fs) = Contents ?bs" by simp
  have 2: "(if fileVersion_of (filename ?fs) \<ge> FileVersion_2
            then readHeader (Fields (tbl ?fs)) ?bs else Inr (Fields (tbl ?fs), ?bs))
           = Inr ([?fa], encodeRow [107] [[5]] @ [])"
    by (simp add: example_version FileVersion_2_def example_stream example_header)
  have 3: "length [107 :: byte] < 65536" by simp
  have 4: "length [[5 :: byte]] < 65536" by simp
  have 5: "length (encodeRow [107] [[5]]) < 2 ^ 63" by (simp add: example_row)
  have 6: "Remove (fst ?m ! 0) 7 [107]
           = (\<lparr>root = Node [] [Edge [107] (Node [107] [] (Some 0) [7])] None [],
               bytes = 3, length_t = 1\<rparr>, Some 0)"
    by (simp add: Remove_def wasRemovedFor_def doRemoveFor_def)
  have 7: "length [[5 :: byte]] < length (snd ?m ! 0)" by simp
  show ?thesis
    by (rule iterate_wider_memstore_entry_panics [OF 1 2 3 4 5 6 7])
qed









lemma truncateColumns_within:
  "i + length cs \<le> length tfields \<Longrightarrow>
   truncateColumns truncateSeq tfields i cs
   = Inr (map (\<lambda>(f, seq). truncateSeq (EncodedWidth f) seq) (zip (drop i tfields) cs),
          \<exists>seq \<in> set (map (\<lambda>(f, seq). truncateSeq (EncodedWidth f) seq) (zip (drop i tfields) cs)).
             seq \<noteq> [])"
proof (induction cs arbitrary: i)
  case Nil
  show ?case by simp
next
  case (Cons seq cs)
  then have i: "i < length tfields" and rest: "Suc i + length cs \<le> length tfields"
    by simp_all
  from i have d: "drop i tfields = tfields ! i # drop (Suc i) tfields"
    by (simp add: Cons_nth_drop_Suc)
  show ?case
    using i by (simp add: Cons.IH [OF rest] d Let_def)
qed

lemma writeRows_retained:
  "\<forall>row \<in> set rows. length (snd row) \<le> length tfields \<Longrightarrow>
   writeRows truncateSeq tfields cout rows
   = Inr (cout @ map (\<lambda>row. encodeRow (fst row) (snd row)) (retained truncateSeq tfields rows))"
proof (induction rows arbitrary: cout)
  case Nil
  show ?case by (simp add: retained_def)
next
  case (Cons row rows)
  obtain ky cs where row: "row = (ky, cs)" by (cases row)
  with Cons.prems have "0 + length cs \<le> length tfields" by simp
  from truncateColumns_within [OF this, of truncateSeq]
  have t: "truncateColumns truncateSeq tfields 0 cs
           = Inr (snd (truncateRow truncateSeq tfields row),
                  \<exists>seq \<in> set (snd (truncateRow truncateSeq tfields row)). seq \<noteq> [])"
    by (simp add: truncateRow_def row)
  from Cons.prems have "\<forall>row \<in> set rows. length (snd row) \<le> length tfields" by simp
  note ih = Cons.IH [OF this]
  show ?case
    by (simp add: row writeRow_def t ih retained_def truncateRow_def)
qed

lemma retained_wf:
  assumes "\<forall>row \<in> set rows. length (fst row) < 65536 \<and> length (snd row) < 65536 \<and>
             length (snd row) \<le> length tfields"
    and "row \<in> set (retained truncateSeq tfields rows)"
  shows "length (fst row) < 65536 \<and> length (snd row) < 65536 \<and> (\<exists>seq \<in> set (snd row). seq \<noteq> [])"
  using assms by (auto simp: retained_def truncateRow_def)

lemma iterate_written_stream:
  assumes wf: "\<forall>row \<in> set rs. length (fst row) < 65536 \<and> length (snd row) < 65536 \<and>
              length (encodeRow (fst row) (snd row)) < 2 ^ 63 \<and> (\<exists>seq \<in> set (snd row). seq \<noteq> [])"
    and hdr: "tfields \<noteq> []" "\<forall>f \<in> set tfields. CHR '','' \<notin> set (String_of f)"
             "length (headerBytes tfields) < 2 ^ 32"
    and stored: "fsys (filename fs)
           = Contents (le_encode width32bits (length (headerBytes tfields)) @ headerBytes tfields
                       @ concat (map (\<lambda>row. encodeRow (fst row) (snd row)) rs))"
      "Fields (tbl fs) = tfields" "fileVersion_of (filename fs) = CurrentFileVersion"
  shows "fileStore_iterate fsys mergeSeq ctx fs collectRows [] [] (m, out) = Inr (m, out @ rs)"
proof -
  obtain ff where ff: "readHeader tfields
      (le_encode width32bits (length (headerBytes tfields)) @ headerBytes tfields
       @ concat (map (\<lambda>row. encodeRow (fst row) (snd row)) rs))
      = Inr (ff, concat (map (\<lambda>row. encodeRow (fst row) (snd row)) rs))"
    using readHeader_own_header [OF hdr] by blast
  show ?thesis
    by (simp add: fileStore_iterate_def stored ff CurrentFileVersion_def buildShouldInclude_def
          readRows_collectRows [OF wf])
qed

lemma le_decode_replicate_zero: "le_decode (replicate n 0) = 0"
  by (induction n) simp_all

text \<open>Claim C2 as stated fails for a key of 65536 bytes: its length is written as the 16-bit
  value 0, the reader takes an empty key and reads the number of columns from the first
  bytes of the key, and the row is not delivered.\<close>

theorem flush_roundtrip_long_key_counterexample:
  "writeRows (\<lambda>w seq. seq) [\<lparr>Name = ''a'', String_of = ''a'', EncodedWidth = 9\<rparr>] []
     [(replicate 65536 0, [[1]])] = Inr [encodeRow (replicate 65536 0) [[1]]] \<and>
   fileStore_iterate
     (\<lambda>n. Contents (closeFile [\<lparr>Name = ''a'', String_of = ''a'', EncodedWidth = 9\<rparr>] False
                      [encodeRow (replicate 65536 0) [[1]]]))
     (\<lambda>f x y. x) 7
     \<lparr>tbl = \<lparr>Fields = [\<lparr>Name = ''a'', String_of = ''a'', EncodedWidth = 9\<rparr>],
             IncludeMemStoreInQuery = True\<rparr>,
      filename = ''d/filestore_00000000000000000001_2.dat''\<rparr>
     collectRows [] [] (([], []), [])
   = Inr (([], []), [])"
proof -
  let ?fa = "\<lparr>Name = ''a'', String_of = ''a'', EncodedWidth = 9\<rparr>"
  let ?ky = "replicate 65536 (0 :: byte)"
  let ?body = "rowBody ?ky [[1]]"
  have w: "writeRows (\<lambda>w seq. seq) [?fa] [] [(?ky, [[1]])] = Inr [encodeRow ?ky [[1]]]"
    by (simp add: writeRow_def)
  have ver: "fileVersion_of ''d/filestore_00000000000000000001_2.dat'' = 2"
    by (simp add: fileVersion_of_def Base_def Atoi_def)
  have hb: "headerBytes [?fa] = [97]"
    by (simp add: headerBytes_def bytes_of_string_def)
  have h: "readHeader [?fa] (1 # 0 # 0 # 0 # 97 # rest) = Inr ([?fa], rest)" for rest
    by (simp add: readHeader_def width32bits_def string_of_bytes_def char_of_def bit_Suc_0_iff)
  have s: "closeFile [?fa] False [encodeRow ?ky [[1]]] = [1, 0, 0, 0, 97] @ encodeRow ?ky [[1]]"
    by (simp add: closeFile_def hb width32bits_def le_encode_numeral)
  have len: "length ?body = 65549"
    by (simp add: rowBody_def width16bits_def width64bits_def)
  have "le_decode (le_encode width16bits (length ?ky)) = 0"
    by (simp add: le_decode_encode width16bits_def)
  then have p: "parseRow (\<lambda>i. True) ?body = Inr ([], [], False)"
    by (simp add: parseRow_def rowBody_def readInt16_def readByteMap_def width16bits_def
          le_decode_encode le_decode_replicate_zero)
  have d: "le_decode (le_encode 8 (8 + length ?body)) = 8 + length ?body"
    by (simp add: le_decode_encode len)
  have r: "readRows mergeSeq mf incMem (\<lambda>i. True) ctx collectRows [] (encodeRow ?ky [[1]]) (m, out)
           = Inr (m, out)" for mergeSeq mf incMem ctx m and out :: "(byte list \<times> sequence list) list"
    unfolding encodeRow_rowBody
    apply (subst readRows.simps)
    apply (simp add: width64bits_def d p le_encode_eq_Nil Let_def)
    apply (simp add: len readRows_Nil)
    done
  have "fileStore_iterate (\<lambda>n. Contents (closeFile [?fa] False [encodeRow ?ky [[1]]]))
     (\<lambda>f x y. x) 7
     \<lparr>tbl = \<lparr>Fields = [?fa], IncludeMemStoreInQuery = True\<rparr>,
      filename = ''d/filestore_00000000000000000001_2.dat''\<rparr>
     collectRows [] [] (([], []), []) = Inr (([], []), [])"
    unfolding s
    by (simp add: fileStore_iterate_def ver FileVersion_2_def h buildShouldInclude_def r Let_def)
  with w show ?thesis by (rule conjI)
qed

text \<open>Claim C2, amended. The rows have keys shorter than 65536 bytes, fewer than 65536
  columns and no more columns than the table has fields; the table has a field, no field
  string contains a comma and the header is shorter than \<open>2 ^ 32\<close> bytes; every row written
  is shorter than \<open>2 ^ 63\<close> bytes. The file that the flusher builds from the calls of \<open>write\<close>
  is read by \<open>iterate\<close>, with no memstores and no field filter, as exactly the rows that
  kept a column after truncation, each with its key and its truncated columns, in the
  order written or, after a sorting flush, in the order of their bytes. In particular a
  row that truncation leaves as it is and that has a column comes back identical.\<close>

theorem flush_roundtrip:
  assumes rows_wf: "\<forall>row \<in> set rows. length (fst row) < 65536 \<and> length (snd row) < 65536 \<and>
                       length (snd row) \<le> length tfields"
    and sizes: "\<forall>row \<in> set (retained truncateSeq tfields rows).
                   length (encodeRow (fst row) (snd row)) < 2 ^ 63"
    and hdr: "tfields \<noteq> []" "\<forall>f \<in> set tfields. CHR '','' \<notin> set (String_of f)"
             "length (headerBytes tfields) < 2 ^ 32"
    and written: "writeRows truncateSeq tfields [] rows = Inr cout"
    and stored: "fsys (filename fs) = Contents (closeFile tfields sorted_flush cout)"
                "Fields (tbl fs) = tfields" "fileVersion_of (filename fs) = CurrentFileVersion"
  shows "fileStore_iterate fsys mergeSeq ctx fs collectRows [] [] (m, [])
         = Inr (m, if sorted_flush
                   then sort_key (\<lambda>row. encodeRow (fst row) (snd row)) (retained truncateSeq tfields rows)
                   else retained truncateSeq tfields rows) \<and>
         (\<forall>row \<in> set rows.
            truncateRow truncateSeq tfields row = row \<and> (\<exists>seq \<in> set (snd row). seq \<noteq> []) \<longrightarrow>
            row \<in> set (if sorted_flush
                        then sort_key (\<lambda>row. encodeRow (fst row) (snd row)) (retained truncateSeq tfields rows)
                        else retained truncateSeq tfields rows))"
proof -
  let ?enc = "\<lambda>row. encodeRow (fst row) (snd row)"
  let ?R = "retained truncateSeq tfields rows"
  let ?D = "if sorted_flush then sort_key ?enc ?R else ?R"
  from rows_wf have "\<forall>row \<in> set rows. length (snd row) \<le> length tfields" by simp
  from writeRows_retained [OF this, of truncateSeq "[]"] written
  have cout: "cout = map ?enc ?R" by simp
  have order: "(if sorted_flush then sort cout else cout) = map ?enc ?D"
    by (simp add: cout sort_map_sort_key)
  have setD: "set ?D = set ?R" by simp
  have "\<forall>row \<in> set ?D. length (fst row) < 65536 \<and> length (snd row) < 65536 \<and>
              length (encodeRow (fst row) (snd row)) < 2 ^ 63 \<and> (\<exists>seq \<in> set (snd row). seq \<noteq> [])"
  proof
    fix row assume "row \<in> set ?D"
    with setD have r: "row \<in> set ?R" by simp
    from retained_wf [OF rows_wf r] sizes r
    show "length (fst row) < 65536 \<and> length (snd row) < 65536 \<and>
              length (encodeRow (fst row) (snd row)) < 2 ^ 63 \<and> (\<exists>seq \<in> set (snd row). seq \<noteq> [])"
      by simp
  qed
  moreover have "fsys (filename fs)
           = Contents (le_encode width32bits (length (headerBytes tfields)) @ headerBytes tfields
                       @ concat (map ?enc ?D))"
    using stored(1) order by (simp add: closeFile_def)
  ultimately have "fileStore_iterate fsys mergeSeq ctx fs collectRows [] [] (m, []) = Inr (m, [] @ ?D)"
    using hdr stored(2,3) by (intro iterate_written_stream)
  moreover have "\<forall>row \<in> set rows.
            truncateRow truncateSeq tfields row = row \<and> (\<exists>seq \<in> set (snd row). seq \<noteq> []) \<longrightarrow>
            row \<in> set ?D"
  proof (intro ballI impI)
    fix row assume "row \<in> set rows"
      and "truncateRow truncateSeq tfields row = row \<and> (\<exists>seq \<in> set (snd row). seq \<noteq> [])"
    then have "row \<in> set ?R"
      by (force simp: retained_def)
    with setD show "row \<in> set ?D" by simp
  qed
  ultimately show ?thesis by simp
qed

theorem flush_roundtrip_witness:
  "fileStore_iterate
     (\<lambda>n. Contents (closeFile [\<lparr>Name = ''a'', String_of = ''a'', EncodedWidth = 9\<rparr>] False
                      [encodeRow [107] [[5]]]))
     (\<lambda>f x y. x) 7
     \<lparr>tbl = \<lparr>Fields = [\<lparr>Name = ''a'', String_of = ''a'', EncodedWidth = 9\<rparr>],
             IncludeMemStoreInQuery = True\<rparr>,
      filename = ''d/filestore_00000000000000000001_2.dat''\<rparr>
     collectRows [] [] (([], []), [])
   = Inr (([], []), [([107], [[5]])])"
proof -
  let ?fa = "\<lparr>Name = ''a'', String_of = ''a'', EncodedWidth = 9\<rparr>"
  let ?rows = "[([107], [[5]])] :: (byte list \<times> sequence list) list"
  let ?fs = "\<lparr>tbl = \<lparr>Fields = [?fa], IncludeMemStoreInQuery = True\<rparr>,
              filename = ''d/filestore_00000000000000000001_2.dat''\<rparr>"
  let ?fsys = "\<lambda>n :: string. Contents (closeFile [?fa] False [encodeRow [107] [[5]]])"
  have ret: "retained (\<lambda>w seq. seq) [?fa] ?rows = ?rows"
    by (simp add: retained_def truncateRow_def)
  have 1: "\<forall>row \<in> set ?rows. length (fst row) < 65536 \<and> length (snd row) < 65536 \<and>
             length (snd row) \<le> length [?fa]"
    by simp
  have 2: "\<forall>row \<in> set (retained (\<lambda>w seq. seq) [?fa] ?rows).
             length (encodeRow (fst row) (snd row)) < 2 ^ 63"
    by (simp add: ret example_row)
  have 3: "[?fa] \<noteq> []" by simp
  have 4: "\<forall>f \<in> set [?fa]. CHR '','' \<notin> set (String_of f)" by simp
  have 5: "length (headerBytes [?fa]) < 2 ^ 32"
    by (simp add: headerBytes_def bytes_of_string_def)
  have 6: "writeRows (\<lambda>w seq. seq) [?fa] [] ?rows = Inr [encodeRow [107] [[5]]]"
    by (simp add: writeRow_def)
  have 7: "?fsys (filename ?fs) = Contents (closeFile [?fa] False [encodeRow [107] [[5]]])"
    by simp
  have 8: "Fields (tbl ?fs) = [?fa]" by simp
  have 9: "fileVersion_of (filename ?fs) = CurrentFileVersion"
    by (simp add: example_version CurrentFileVersion_def FileVersion_2_def)
  from flush_roundtrip [OF 1 2 3 4 5 6 7 8 9, of "\<lambda>f x y. x" 7 "([], [])"]
  show ?thesis
    by (simp add: ret)
qed

section \<open>Properties of bytemapParams.Get\<close>

text \<open>Claim C10. For every field name and every byte map, \<open>bytemapParams.Get\<close> returns
  \<open>(0, false)\<close> when the field is absent from the map, and \<open>(v, true)\<close> with the stored
  float64 value \<open>v\<close> when the field is present with such a value.\<close>

theorem bytemapParams_Get_correct:
  "(bmp field = None \<longrightarrow> bytemapParams_Get bmp field = Inr (0, False)) \<and>
   (bmp field = Some (IFloat64 v) \<longrightarrow> bytemapParams_Get bmp field = Inr (v, True))"
  by (simp add: bytemapParams_Get_def ByteMap_Get_def)

theorem bytemapParams_Get_correct_witness:
  "(Map.empty :: ByteMap) ''a'' = None \<and>
   bytemapParams_Get Map.empty ''a'' = Inr (0, False) \<and>
   [''a'' \<mapsto> IFloat64 7] ''a'' = Some (IFloat64 7) \<and>
   bytemapParams_Get [''a'' \<mapsto> IFloat64 7] ''a'' = Inr (7, True)"
  using bytemapParams_Get_correct [of Map.empty "''a''" 7]
        bytemapParams_Get_correct [of "[''a'' \<mapsto> IFloat64 7]" "''a''" 7]
  by simp

end
